theory Spec2Isabelle
  imports
    Complex_Main
    "HOL-Library.AList"
    "HOL-Library.Char_ord"
    "HOL-Library.List_Lexorder"
begin

section \<open>Strings (package strings of the Go library)\<close>

text \<open>
  A Go string is a sequence of bytes, here a \<open>string\<close> (a list of 8-bit characters).
  \<open>strings.HasPrefix(s, prefix)\<close> is
  \<^verbatim>\<open>len(s) >= len(prefix) && s[:len(prefix)] == prefix\<close> and
  \<open>strings.Contains(s, substr)\<close> is \<^verbatim>\<open>Index(s, substr) >= 0\<close>: some offset of
  \<open>s\<close> starts with \<open>substr\<close>, byte for byte.
\<close>

definition HasPrefix :: "string \<Rightarrow> string \<Rightarrow> bool" where
  "HasPrefix s prefix = (length prefix \<le> length s \<and> take (length prefix) s = prefix)"

fun Contains :: "string \<Rightarrow> string \<Rightarrow> bool" where
  "Contains [] substr = HasPrefix [] substr"
| "Contains (c # s) substr = (HasPrefix (c # s) substr \<or> Contains s substr)"

text \<open>
  \<open>strings.TrimSpace\<close> removes the leading and the trailing runes for which
  \<open>unicode.IsSpace\<close> holds. The list below holds the UTF-8 encodings of these runes:
  the six of ASCII, U+0085, U+00A0, U+1680, U+2000 to U+200A, U+2028, U+2029, U+202F,
  U+205F and U+3000. No encoding in the list is a prefix or a suffix of a longer valid
  encoding, so that stripping these byte sequences from both ends is what decoding rune
  by rune does.
\<close>

definition space_runes :: "string list" where
  "space_runes =
    [[CHR 0x09], [CHR 0x0A], [CHR 0x0B], [CHR 0x0C], [CHR 0x0D], [CHR 0x20],
     [CHR 0xC2, CHR 0x85], [CHR 0xC2, CHR 0xA0],
     [CHR 0xE1, CHR 0x9A, CHR 0x80],
     [CHR 0xE2, CHR 0x80, CHR 0x80], [CHR 0xE2, CHR 0x80, CHR 0x81],
     [CHR 0xE2, CHR 0x80, CHR 0x82], [CHR 0xE2, CHR 0x80, CHR 0x83],
     [CHR 0xE2, CHR 0x80, CHR 0x84], [CHR 0xE2, CHR 0x80, CHR 0x85],
     [CHR 0xE2, CHR 0x80, CHR 0x86], [CHR 0xE2, CHR 0x80, CHR 0x87],
     [CHR 0xE2, CHR 0x80, CHR 0x88], [CHR 0xE2, CHR 0x80, CHR 0x89],
     [CHR 0xE2, CHR 0x80, CHR 0x8A],
     [CHR 0xE2, CHR 0x80, CHR 0xA8], [CHR 0xE2, CHR 0x80, CHR 0xA9],
     [CHR 0xE2, CHR 0x80, CHR 0xAF], [CHR 0xE2, CHR 0x81, CHR 0x9F],
     [CHR 0xE3, CHR 0x80, CHR 0x80]]"

definition leading :: "string list \<Rightarrow> string \<Rightarrow> nat" where
  "leading runes s =
    (case find (\<lambda>r. HasPrefix s r) runes of None \<Rightarrow> 0 | Some r \<Rightarrow> length r)"

function TrimLeft :: "string list \<Rightarrow> string \<Rightarrow> string" where
  "TrimLeft runes s =
    (if leading runes s = 0 then s else TrimLeft runes (drop (leading runes s) s))"
  by pat_completeness auto
termination
proof (relation "measure (\<lambda>(runes, s). length s)")
  show "wf (measure (\<lambda>(runes, s). length s))" by simp
next
  fix runes :: "string list" and s :: string
  assume "leading runes s \<noteq> 0"
  moreover have "leading runes s \<le> length s"
    by (auto simp: leading_def HasPrefix_def find_Some_iff split: option.splits)
  ultimately show "((runes, drop (leading runes s) s), (runes, s))
      \<in> measure (\<lambda>(runes, s). length s)"
    by simp
qed

declare TrimLeft.simps [simp del]

definition TrimSpace :: "string \<Rightarrow> string" where
  "TrimSpace s = rev (TrimLeft (map rev space_runes) (rev (TrimLeft space_runes s)))"

section \<open>Go values and JSON\<close>

text \<open>
  The values an \<open>any\<close> holds in this program: what \<open>encoding/json\<close> decodes into an
  \<open>any\<close> (nil, bool, float64, string, \<open>[]any\<close>, \<open>map[string]any\<close>), the Go \<open>int\<close>
  the tests put into variable maps, and the struct \<open>EncodedVariable\<close> of
  \<open>mocked_request_test.go\<close>. The constructor is the dynamic type. A nil slice and a nil
  map are \<open>None\<close>; a map is the list of its entries, whose keys are distinct
  (\<open>wf_map\<close>). A float64 is its value, or an infinity, or NaN.
\<close>

datatype float64 = Finite real | PosInf | NegInf | NaN

record EncodedVariable =
  Foo :: string
  Num :: int

datatype gvalue =
    VNil
  | VBool bool
  | VInt int
  | VFloat64 float64
  | VString string
  | VSlice "gvalue list option"
  | VMap "(string \<times> gvalue) list option"
  | VEncodedVariable EncodedVariable

type_synonym variables = "(string \<times> gvalue) list option"

definition len :: "'a list option \<Rightarrow> nat" where
  "len m = (case m of None \<Rightarrow> 0 | Some kvs \<Rightarrow> length kvs)"

definition keys :: "variables \<Rightarrow> string list" where
  "keys m = (case m of None \<Rightarrow> [] | Some kvs \<Rightarrow> map fst kvs)"

definition wf_map :: "variables \<Rightarrow> bool" where
  "wf_map m = distinct (keys m)"

datatype json =
    JNull
  | JBool bool
  | JNumber real
  | JString string
  | JArray "json list"
  | JObject "(string \<times> json) list"

subsection \<open>reflect.DeepEqual\<close>

text \<open>
  \<open>reflect.DeepEqual\<close>, as package reflect documents it: values of distinct types are
  never deeply equal; booleans, numbers and strings are deeply equal when Go's \<open>==\<close> says
  so (a NaN is equal to nothing); slices when both are nil or both are not, the lengths
  agree and the elements are deeply equal in turn; maps when both are nil or both are
  not, the lengths agree and every key of the first is a key of the second with a
  deeply equal value; structs when the fields are. The two arguments are taken to be
  distinct objects, as a registered reference and a request are.
\<close>

definition float64_eq :: "float64 \<Rightarrow> float64 \<Rightarrow> bool" where
  "float64_eq x y = (x \<noteq> NaN \<and> y \<noteq> NaN \<and> x = y)"

fun DeepEqual :: "gvalue \<Rightarrow> gvalue \<Rightarrow> bool"
  and DeepEqual_elems :: "gvalue list \<Rightarrow> gvalue list \<Rightarrow> bool"
  and DeepEqual_entries :: "(string \<times> gvalue) list \<Rightarrow> (string \<times> gvalue) list \<Rightarrow> bool"
where
  "DeepEqual VNil y = (y = VNil)"
| "DeepEqual (VBool a) y = (case y of VBool b \<Rightarrow> a = b | _ \<Rightarrow> False)"
| "DeepEqual (VInt a) y = (case y of VInt b \<Rightarrow> a = b | _ \<Rightarrow> False)"
| "DeepEqual (VFloat64 a) y = (case y of VFloat64 b \<Rightarrow> float64_eq a b | _ \<Rightarrow> False)"
| "DeepEqual (VString a) y = (case y of VString b \<Rightarrow> a = b | _ \<Rightarrow> False)"
| "DeepEqual (VEncodedVariable a) y =
    (case y of VEncodedVariable b \<Rightarrow> Foo a = Foo b \<and> Num a = Num b | _ \<Rightarrow> False)"
| "DeepEqual (VSlice None) y = (y = VSlice None)"
| "DeepEqual (VSlice (Some xs)) y =
    (case y of VSlice (Some ys) \<Rightarrow> length xs = length ys \<and> DeepEqual_elems xs ys
     | _ \<Rightarrow> False)"
| "DeepEqual (VMap None) y = (y = VMap None)"
| "DeepEqual (VMap (Some kvs)) y =
    (case y of VMap (Some kvs') \<Rightarrow> length kvs = length kvs' \<and> DeepEqual_entries kvs kvs'
     | _ \<Rightarrow> False)"
| "DeepEqual_elems [] ys = True"
| "DeepEqual_elems (x # xs) ys =
    (case ys of [] \<Rightarrow> False | y # ys' \<Rightarrow> DeepEqual x y \<and> DeepEqual_elems xs ys')"
| "DeepEqual_entries [] kvs' = True"
| "DeepEqual_entries ((k, v) # kvs) kvs' =
    (case map_of kvs' k of None \<Rightarrow> False
     | Some v' \<Rightarrow> DeepEqual v v' \<and> DeepEqual_entries kvs kvs')"

subsection \<open>Dynamic types and map lookup\<close>

text \<open>
  \<open>reflect.TypeOf\<close>: the dynamic type of a value, and \<open>m[k]\<close> in its two-valued form.
\<close>

datatype go_type =
  T_nil | T_bool | T_int | T_float64 | T_string | T_slice | T_map | T_EncodedVariable

fun TypeOf :: "gvalue \<Rightarrow> go_type" where
  "TypeOf VNil = T_nil"
| "TypeOf (VBool b) = T_bool"
| "TypeOf (VInt i) = T_int"
| "TypeOf (VFloat64 f) = T_float64"
| "TypeOf (VString s) = T_string"
| "TypeOf (VSlice xs) = T_slice"
| "TypeOf (VMap m) = T_map"
| "TypeOf (VEncodedVariable e) = T_EncodedVariable"

definition lookup :: "variables \<Rightarrow> string \<Rightarrow> gvalue option" where
  "lookup m k = (case m of None \<Rightarrow> None | Some kvs \<Rightarrow> map_of kvs k)"

text \<open>
  The values without parts that Go's \<open>==\<close> compares and finds equal to themselves: nil,
  booleans, integers, strings and the floating point numbers but NaN.
\<close>

fun scalar :: "gvalue \<Rightarrow> bool" where
  "scalar VNil = True"
| "scalar (VBool b) = True"
| "scalar (VInt i) = True"
| "scalar (VFloat64 f) = (f \<noteq> NaN)"
| "scalar (VString s) = True"
| "scalar (VSlice xs) = False"
| "scalar (VMap m) = False"
| "scalar (VEncodedVariable e) = False"

subsection \<open>json.Marshal\<close>

text \<open>
  \<open>json.Marshal\<close> of a value, up to the text of the document: nil, a nil slice and a nil
  map are \<open>null\<close>, an int and a finite float64 are the number of their value, a map is
  the object of its entries in the order of their keys, a struct is the object of its
  tagged fields in declaration order. A NaN or an infinity is an
  \<open>UnsupportedValueError\<close> (\<open>None\<close>). Strings are taken to be valid UTF-8, as the ones
  decoded from a request are.
\<close>

fun Marshal :: "gvalue \<Rightarrow> json option"
  and Marshal_elems :: "gvalue list \<Rightarrow> json list option"
  and Marshal_entries :: "(string \<times> gvalue) list \<Rightarrow> (string \<times> json) list option"
where
  "Marshal VNil = Some JNull"
| "Marshal (VBool b) = Some (JBool b)"
| "Marshal (VInt i) = Some (JNumber (of_int i))"
| "Marshal (VFloat64 f) = (case f of Finite r \<Rightarrow> Some (JNumber r) | _ \<Rightarrow> None)"
| "Marshal (VString s) = Some (JString s)"
| "Marshal (VEncodedVariable e) =
    Some (JObject [(''foo'', JString (Foo e)), (''num'', JNumber (of_int (Num e)))])"
| "Marshal (VSlice None) = Some JNull"
| "Marshal (VSlice (Some xs)) = map_option JArray (Marshal_elems xs)"
| "Marshal (VMap None) = Some JNull"
| "Marshal (VMap (Some kvs)) = map_option (\<lambda>fs. JObject (sort_key fst fs)) (Marshal_entries kvs)"
| "Marshal_elems [] = Some []"
| "Marshal_elems (x # xs) =
    (case Marshal x of None \<Rightarrow> None
     | Some j \<Rightarrow> map_option ((#) j) (Marshal_elems xs))"
| "Marshal_entries [] = Some []"
| "Marshal_entries ((k, v) # kvs) =
    (case Marshal v of None \<Rightarrow> None
     | Some j \<Rightarrow> map_option ((#) (k, j)) (Marshal_entries kvs))"

section \<open>The decoder of the tests: EncodedVariable\<close>

text \<open>
  \<open>EncodedVariable.Variable\<close> marshals the request's variables and decodes the document
  into a new \<open>EncodedVariable\<close> with \<open>DisallowUnknownFields\<close>. A key names a field when
  it is the field's tag up to the case of its letters. A string goes into \<open>Foo\<close>, a
  number into \<open>Num\<close> when its literal parses as a 64-bit integer, \<open>null\<close> leaves a
  field as it is; an unknown key or a value of another kind is recorded as the error
  and decoding goes on.
\<close>

definition toUpper :: "char \<Rightarrow> char" where
  "toUpper c =
    (if CHR ''a'' \<le> c \<and> c \<le> CHR ''z'' then char_of (of_char c - (32 :: nat)) else c)"

definition foldName :: "string \<Rightarrow> string" where
  "foldName s = map toUpper s"

definition known_field :: "string \<Rightarrow> bool" where
  "known_field k = (foldName k = ''FOO'' \<or> foldName k = ''NUM'')"

definition is_int64 :: "real \<Rightarrow> bool" where
  "is_int64 r = (of_int \<lfloor>r\<rfloor> = r \<and> - (2 ^ 63) \<le> r \<and> r < 2 ^ 63)"

fun decode_field :: "string \<times> json \<Rightarrow> EncodedVariable \<times> bool \<Rightarrow> EncodedVariable \<times> bool" where
  "decode_field (k, j) (ret, ok) =
    (if foldName k = ''FOO'' then
       (case j of
          JString s \<Rightarrow> (ret\<lparr>Foo := s\<rparr>, ok)
        | JNull \<Rightarrow> (ret, ok)
        | _ \<Rightarrow> (ret, False))
     else if foldName k = ''NUM'' then
       (case j of
          JNumber r \<Rightarrow> if is_int64 r then (ret\<lparr>Num := \<lfloor>r\<rfloor>\<rparr>, ok) else (ret, False)
        | JNull \<Rightarrow> (ret, ok)
        | _ \<Rightarrow> (ret, False))
     else (ret, False))"

definition Decode_EncodedVariable :: "json \<Rightarrow> EncodedVariable \<times> bool" where
  "Decode_EncodedVariable data =
    (let ret = \<lparr>Foo = [], Num = 0\<rparr> in
     case data of
       JObject fs \<Rightarrow> fold decode_field fs (ret, True)
     | JNull \<Rightarrow> (ret, True)
     | _ \<Rightarrow> (ret, False))"

definition EncodedVariable_Variable :: "variables \<Rightarrow> gvalue \<times> bool" where
  "EncodedVariable_Variable req =
    (if len req = 0 then (VNil, False)
     else if len req > 2 then (VNil, False)
     else case Marshal (VMap req) of
       None \<Rightarrow> (VNil, False)
     | Some data \<Rightarrow> (case Decode_EncodedVariable data of (ret, ok) \<Rightarrow> (VEncodedVariable ret, ok)))"

section \<open>Mocked requests\<close>

text \<open>
  The interface \<open>MockedRequest\<close> is the record of its two methods. \<open>Response()\<close> may
  panic (\<open>StringResponse\<close> does, on a string that is not a JSON object), so its result
  is a sum.
\<close>

datatype panic = FailedToEncodeStringResponse | FailedToEncodeResponse

record MockedRequest =
  CompareVariables :: "variables \<Rightarrow> bool"
  Response :: "panic + gvalue"

definition RawResponse_Response :: "gvalue \<Rightarrow> panic + gvalue" where
  "RawResponse_Response Payload = Inr Payload"

text \<open>\<open>json.Unmarshal\<close> into a \<open>map[string]any\<close> is a parameter: \<open>None\<close> is its error.\<close>

definition StringResponse_Response :: "(string \<Rightarrow> variables option) \<Rightarrow> string \<Rightarrow> panic + gvalue" where
  "StringResponse_Response Unmarshal s =
    (case Unmarshal s of None \<Rightarrow> Inl FailedToEncodeStringResponse | Some data \<Rightarrow> Inr (VMap data))"

definition NoVariable_CompareVariables :: "variables \<Rightarrow> bool" where
  "NoVariable_CompareVariables got = (len got = 0)"

text \<open>
  \<open>KeyOnlyVariables\<close>: the map \<open>want\<close> is a list of entries with distinct keys, filled
  by assignment; \<open>want[k]\<close> of a missing key is \<open>false\<close>.
\<close>

definition index :: "(string \<times> bool) list \<Rightarrow> string \<Rightarrow> bool" where
  "index want k = (case map_of want k of None \<Rightarrow> False | Some b \<Rightarrow> b)"

definition KeyOnlyVariables_CompareVariables :: "string list \<Rightarrow> variables \<Rightarrow> bool" where
  "KeyOnlyVariables_CompareVariables kv got =
    (let want = fold (\<lambda>k want. AList.update k True want) kv [] in
     if length want \<noteq> len got then False
     else list_all (\<lambda>k. index want k) (keys got))"

text \<open>
  \<open>ExactVariables\<close>: the type assertion \<open>ev.Variables.(VariableDecoder)\<close> succeeds on the
  types that have a method \<open>Variable\<close>; \<open>EncodedVariable\<close> is the one type of the
  repository that does.
\<close>

fun as_VariableDecoder :: "gvalue \<Rightarrow> (variables \<Rightarrow> gvalue \<times> bool) option" where
  "as_VariableDecoder (VEncodedVariable e) = Some EncodedVariable_Variable"
| "as_VariableDecoder _ = None"

definition ExactVariables_CompareVariables :: "gvalue \<Rightarrow> variables \<Rightarrow> bool" where
  "ExactVariables_CompareVariables Variables reqVar =
    (case as_VariableDecoder Variables of
       Some decoder \<Rightarrow>
         (case decoder reqVar of (got, ok) \<Rightarrow>
            if \<not> ok then False else DeepEqual Variables got)
     | None \<Rightarrow> DeepEqual Variables (VMap reqVar))"

definition SimpleMockedRequest :: "(string \<Rightarrow> variables option) \<Rightarrow> string \<Rightarrow> string list \<Rightarrow> MockedRequest" where
  "SimpleMockedRequest Unmarshal s kv =
    \<lparr>CompareVariables = KeyOnlyVariables_CompareVariables kv,
     Response = StringResponse_Response Unmarshal s\<rparr>"

section \<open>Requests and responses\<close>

record Request =
  Query :: string
  Variables :: variables

record ResponseError =
  Message :: string
  Path :: "string list option"
  Extensions :: gvalue

record Response =
  Data :: gvalue
  Errors :: "ResponseError list"

text \<open>
  \<open>json.NewEncoder(w).Encode\<close> of a \<open>Response\<close>, after the tags of the two structs:
  \<open>data\<close>, \<open>message\<close>, \<open>path\<close> and \<open>extensions\<close> are written whatever they hold;
  \<open>errors\<close> has \<open>omitempty\<close> and is left out when the slice is empty.
\<close>

definition Encode_ResponseError :: "ResponseError \<Rightarrow> json option" where
  "Encode_ResponseError e =
    (case Marshal (Extensions e) of
       None \<Rightarrow> None
     | Some x \<Rightarrow>
         Some (JObject
           [(''message'', JString (Message e)),
            (''path'', case Path e of None \<Rightarrow> JNull | Some p \<Rightarrow> JArray (map JString p)),
            (''extensions'', x)]))"

fun Encode_Errors :: "ResponseError list \<Rightarrow> json list option" where
  "Encode_Errors [] = Some []"
| "Encode_Errors (e # es) =
    (case Encode_ResponseError e of
       None \<Rightarrow> None
     | Some j \<Rightarrow> map_option ((#) j) (Encode_Errors es))"

definition Encode_Response :: "Response \<Rightarrow> json option" where
  "Encode_Response res =
    (case Marshal (Data res) of
       None \<Rightarrow> None
     | Some d \<Rightarrow>
         (case Encode_Errors (Errors res) of
            None \<Rightarrow> None
          | Some es \<Rightarrow>
              Some (JObject
                ((''data'', d) # (if Errors res = [] then [] else [(''errors'', JArray es)])))))"

text \<open>
  The \<open>http.ResponseWriter\<close> is the list of what was sent through it: one status and one
  document for each call of \<open>respond\<close>. A panic ends the handler.
\<close>

type_synonym ResponseWriter = "(nat \<times> json) list"

definition respond :: "ResponseWriter \<Rightarrow> nat \<Rightarrow> Response \<Rightarrow> panic + ResponseWriter" where
  "respond w status payload =
    (case Encode_Response payload of
       None \<Rightarrow> Inl FailedToEncodeResponse
     | Some doc \<Rightarrow> Inr (w @ [(status, doc)]))"

definition respondError :: "ResponseWriter \<Rightarrow> nat \<Rightarrow> string \<Rightarrow> gvalue \<Rightarrow> panic + ResponseWriter" where
  "respondError w status err extensions =
    respond w status
      \<lparr>Data = VNil, Errors = [\<lparr>Message = err, Path = None, Extensions = extensions\<rparr>]\<rparr>"

definition respondResponse :: "ResponseWriter \<Rightarrow> nat \<Rightarrow> gvalue \<Rightarrow> panic + ResponseWriter" where
  "respondResponse w status data = respond w status \<lparr>Data = data, Errors = []\<rparr>"

definition StatusOK :: nat where "StatusOK = 200"
definition StatusNotFound :: nat where "StatusNotFound = 404"
definition StatusInternalServerError :: nat where "StatusInternalServerError = 500"

section \<open>Errors and their formatting\<close>

text \<open>
  The errors \<open>Decode\<close> returns on a request body. \<open>ErrorString\<close> is
  \<open>*errors.errorString\<close>, the type of \<open>io.EOF\<close> and \<open>io.ErrUnexpectedEOF\<close>; any other
  error is given by its message and by what the verb \<open>%e\<close> prints for it.

  \<open>Errorf_e\<close> is \<open>fmt.Errorf\<close> with one verb \<open>%e\<close> at the end of the format. \<open>%e\<close> is a
  verb of floating point numbers: package fmt calls \<open>Error()\<close> for the verbs
  \<open>%v %s %x %X %q\<close> only, and prints every other operand by reflection. A pointer to a
  struct is \<open>&{...}\<close> with the fields inside, and a string field under a verb that is
  not one of strings is \<open>%!e(string=...)\<close>.
\<close>

datatype go_error = ErrorString string | OtherError string string

fun Error :: "go_error \<Rightarrow> string" where
  "Error (ErrorString s) = s"
| "Error (OtherError msg printed) = msg"

fun Errorf_e :: "string \<Rightarrow> go_error \<Rightarrow> string" where
  "Errorf_e format (ErrorString s) = format @ ''&{%!e(string='' @ s @ '')}''"
| "Errorf_e format (OtherError msg printed) = format @ printed"

definition io_EOF :: go_error where
  "io_EOF = ErrorString ''EOF''"

section \<open>The server\<close>

record server =
  queries :: "string \<rightharpoonup> MockedRequest list"

definition New :: server where
  "New = \<lparr>queries = Map.empty\<rparr>"

text \<open>\<open>s.queries[identifier]\<close>: the slice under the key, nil (no element) without the key.\<close>

definition entries :: "(string \<rightharpoonup> MockedRequest list) \<Rightarrow> string \<Rightarrow> MockedRequest list" where
  "entries qs ident = (case qs ident of None \<Rightarrow> [] | Some ms \<Rightarrow> ms)"

definition RegisterQuery :: "server \<Rightarrow> string \<Rightarrow> MockedRequest \<Rightarrow> server" where
  "RegisterQuery s identifier mock =
    (let tmp = entries (queries s) identifier;
         tmp = tmp @ [mock]
     in s\<lparr>queries := (queries s)(identifier \<mapsto> tmp)\<rparr>)"

definition handleQuery :: "MockedRequest \<Rightarrow> Request \<Rightarrow> ResponseWriter \<Rightarrow> panic + (bool \<times> ResponseWriter)" where
  "handleQuery mock req w =
    (if \<not> CompareVariables mock (Variables req) then Inr (False, w)
     else case Response mock of
       Inl p \<Rightarrow> Inl p
     | Inr data \<Rightarrow>
         (case respondResponse w StatusOK data of
            Inl p \<Rightarrow> Inl p
          | Inr w' \<Rightarrow> Inr (True, w')))"

text \<open>
  The inner loop of \<open>handler\<close> over the mocked requests of one identifier: \<open>True\<close> when
  one of them answered, which is where the handler returns.
\<close>

fun range_mockedRequests :: "MockedRequest list \<Rightarrow> Request \<Rightarrow> ResponseWriter \<Rightarrow> panic + (bool \<times> ResponseWriter)" where
  "range_mockedRequests [] req w = Inr (False, w)"
| "range_mockedRequests (mockedRequest # rest) req w =
    (case handleQuery mockedRequest req w of
       Inl p \<Rightarrow> Inl p
     | Inr (True, w') \<Rightarrow> Inr (True, w')
     | Inr (False, w') \<Rightarrow> range_mockedRequests rest req w')"

text \<open>
  The outer loop, \<^verbatim>\<open>for id, mockedRequests := range s.queries\<close>. Go leaves the order of
  a \<open>range\<close> over a map open, so the order is an argument: a list \<open>ids\<close> that
  \<open>enumerates\<close> the keys of the map. The last argument and the last component of the
  result are not in the source: they record the identifiers whose mocked requests the
  loop went through.
\<close>

definition enumerates :: "string list \<Rightarrow> (string \<rightharpoonup> MockedRequest list) \<Rightarrow> bool" where
  "enumerates ids qs = (distinct ids \<and> set ids = dom qs)"

fun range_queries :: "string list \<Rightarrow> (string \<rightharpoonup> MockedRequest list) \<Rightarrow> Request \<Rightarrow> ResponseWriter \<Rightarrow> string list
    \<Rightarrow> panic + (bool \<times> ResponseWriter \<times> string list)" where
  "range_queries [] qs reqBody w scanned = Inr (False, w, scanned)"
| "range_queries (ident # ids) qs reqBody w scanned =
    (if Contains (Query reqBody) ident then
       (case range_mockedRequests (entries qs ident) reqBody w of
          Inl p \<Rightarrow> Inl p
        | Inr (True, w') \<Rightarrow> Inr (True, w', scanned @ [ident])
        | Inr (False, w') \<Rightarrow> range_queries ids qs reqBody w' (scanned @ [ident]))
     else range_queries ids qs reqBody w scanned)"

definition not_found :: string where
  "not_found = ''goraphql_mock_server: mocked request not found''"

definition decode_request_body :: string where
  "decode_request_body = ''goraphql_mock_server: decode request body: ''"

text \<open>
  \<open>handler\<close>. Its argument \<open>body\<close> is what \<open>json.NewDecoder(r.Body).Decode(&reqBody)\<close>
  gave: the error, or the request. \<open>handler_scanned\<close> is the handler with the record of
  the identifiers it went through; \<open>handler\<close> leaves the record out.
\<close>

definition handler_scanned :: "string list \<Rightarrow> server \<Rightarrow> go_error + Request \<Rightarrow> ResponseWriter
    \<Rightarrow> panic + (ResponseWriter \<times> string list)" where
  "handler_scanned ids s body w =
    (case body of
       Inl err \<Rightarrow>
         map_sum id (\<lambda>w'. (w', []))
           (respondError w StatusInternalServerError (Errorf_e decode_request_body err) VNil)
     | Inr reqBody \<Rightarrow>
         (case
            (if HasPrefix (TrimSpace (Query reqBody)) ''query''
             then range_queries ids (queries s) reqBody w []
             else Inr (False, w, []))
          of
            Inl p \<Rightarrow> Inl p
          | Inr (True, w', scanned) \<Rightarrow> Inr (w', scanned)
          | Inr (False, w', scanned) \<Rightarrow>
              map_sum id (\<lambda>w''. (w'', scanned))
                (respondError w' StatusNotFound not_found VNil)))"

definition handler :: "string list \<Rightarrow> server \<Rightarrow> go_error + Request \<Rightarrow> ResponseWriter
    \<Rightarrow> panic + ResponseWriter" where
  "handler ids s body w = map_sum id fst (handler_scanned ids s body w)"

section \<open>The documents the handler sends\<close>

definition data_document :: "json \<Rightarrow> json" where
  "data_document d = JObject [(''data'', d)]"

definition error_document :: "string \<Rightarrow> json \<Rightarrow> json" where
  "error_document msg ext =
    JObject
      [(''data'', JNull),
       (''errors'', JArray
          [JObject [(''message'', JString msg), (''path'', JNull), (''extensions'', ext)]])]"

text \<open>
  Mocked requests for the examples: both accept a request without variables, as a struct
  that embeds \<open>RawResponse\<close> and \<open>NoVariable\<close> does.
\<close>

definition mock_A :: MockedRequest where
  "mock_A = \<lparr>CompareVariables = NoVariable_CompareVariables,
             Response = RawResponse_Response (VString ''A'')\<rparr>"

definition mock_B :: MockedRequest where
  "mock_B = \<lparr>CompareVariables = NoVariable_CompareVariables,
             Response = RawResponse_Response (VString ''B'')\<rparr>"

text \<open>A matcher of a user's own that accepts every request.\<close>

definition AnyVariables_CompareVariables :: "variables \<Rightarrow> bool" where
  "AnyVariables_CompareVariables got = True"

definition mock_C :: MockedRequest where
  "mock_C = \<lparr>CompareVariables = NoVariable_CompareVariables,
             Response = RawResponse_Response (VString ''C'')\<rparr>"

definition mock_E :: MockedRequest where
  "mock_E = \<lparr>CompareVariables = AnyVariables_CompareVariables,
             Response = RawResponse_Response (VString ''E'')\<rparr>"

section \<open>Key-only matching\<close>

lemma want_keys:
  "fst ` set (fold (\<lambda>k want. AList.update k True want) kv acc) = set kv \<union> fst ` set acc"
  by (induction kv arbitrary: acc) (auto simp: dom_update)

lemma want_distinct:
  "distinct (map fst acc) \<Longrightarrow>
     distinct (map fst (fold (\<lambda>k want. AList.update k True want) kv acc))"
  by (induction kv arbitrary: acc) (auto simp: distinct_update)

lemma want_lookup:
  "map_of (fold (\<lambda>k want. AList.update k True want) kv acc) k =
     (if k \<in> set kv then Some True else map_of acc k)"
  by (induction kv arbitrary: acc) (auto simp: update_conv')

lemma want_length:
  "length (fold (\<lambda>k want. AList.update k True want) kv []) = card (set kv)"
proof -
  let ?want = "fold (\<lambda>k want. AList.update k True want) kv []"
  have "distinct (map fst ?want)" by (rule want_distinct) simp
  then have "card (set (map fst ?want)) = length (map fst ?want)" by (rule distinct_card)
  moreover have "set (map fst ?want) = set kv" using want_keys [of kv "[]"] by simp
  ultimately show ?thesis by simp
qed

lemma want_index:
  "index (fold (\<lambda>k want. AList.update k True want) kv []) k = (k \<in> set kv)"
  by (simp add: index_def want_lookup)

lemma len_keys: "len m = length (keys m)"
  by (simp add: len_def keys_def split: option.splits)

lemma KeyOnlyVariables_char:
  "KeyOnlyVariables_CompareVariables kv got =
     (card (set kv) = length (keys got) \<and> set (keys got) \<subseteq> set kv)"
  by (auto simp: KeyOnlyVariables_CompareVariables_def Let_def want_length want_index
      len_keys list_all_iff)

text \<open>
  Claim C2. For every key list \<open>K\<close> and every variable map \<open>M\<close> (a Go map: its keys are
  distinct), \<open>KeyOnlyVariables(K).CompareVariables(M)\<close> is true if and only if the set
  of the keys of \<open>M\<close> is the set of the elements of \<open>K\<close>. The values of \<open>M\<close> are never
  looked at: a map with the same keys and any other values gets the same answer.
\<close>

theorem KeyOnlyVariables_key_set:
  "wf_map M \<Longrightarrow>
     (KeyOnlyVariables_CompareVariables K M \<longleftrightarrow> set (keys M) = set K) \<and>
     (\<forall>M'. keys M' = keys M \<longrightarrow>
        KeyOnlyVariables_CompareVariables K M' = KeyOnlyVariables_CompareVariables K M)"
proof -
  assume wf: "wf_map M"
  then have card: "card (set (keys M)) = length (keys M)"
    by (simp add: wf_map_def distinct_card)
  have "(card (set K) = length (keys M) \<and> set (keys M) \<subseteq> set K) \<longleftrightarrow> set (keys M) = set K"
  proof
    assume h: "card (set K) = length (keys M) \<and> set (keys M) \<subseteq> set K"
    then have "card (set (keys M)) = card (set K)" using card by simp
    with h show "set (keys M) = set K" by (simp add: card_subset_eq)
  next
    assume "set (keys M) = set K"
    then show "card (set K) = length (keys M) \<and> set (keys M) \<subseteq> set K"
      using card by auto
  qed
  then show ?thesis by (simp add: KeyOnlyVariables_char)
qed

theorem KeyOnlyVariables_key_set_witness:
  "wf_map (Some [(''num'', VInt 1), (''foo'', VString ''x'')]) \<and>
   KeyOnlyVariables_CompareVariables [''foo'', ''num'']
     (Some [(''num'', VInt 1), (''foo'', VString ''x'')]) \<and>
   KeyOnlyVariables_CompareVariables [''foo'', ''num'']
     (Some [(''num'', VBool False), (''foo'', VNil)])"
  using KeyOnlyVariables_key_set
    [of "Some [(''num'', VInt 1), (''foo'', VString ''x'')]" "[''foo'', ''num'']"]
  by (auto simp: wf_map_def keys_def)

section \<open>Exact matching through a decoder\<close>

lemma Marshal_entries_keys:
  "Marshal_entries kvs = Some fs \<Longrightarrow> map fst fs = map fst kvs"
proof (induction kvs arbitrary: fs)
  case Nil
  then show ?case by simp
next
  case (Cons kv kvs)
  obtain k v where kv: "kv = (k, v)" by (cases kv)
  from Cons.prems kv obtain j fs' where "Marshal v = Some j" "Marshal_entries kvs = Some fs'"
    "fs = (k, j) # fs'"
    by (auto split: option.splits)
  with Cons.IH kv show ?case by simp
qed

lemma decode_field_ok:
  "snd (decode_field (k, j) (ret, ok)) \<Longrightarrow> ok \<and> known_field k"
  by (auto simp: known_field_def split: if_splits json.splits)

lemma fold_decode_field_ok:
  "snd (fold decode_field fs acc) \<Longrightarrow> snd acc \<and> (\<forall>k \<in> fst ` set fs. known_field k)"
proof (induction fs arbitrary: acc)
  case Nil
  then show ?case by simp
next
  case (Cons f fs)
  obtain k j where f: "f = (k, j)" by (cases f)
  obtain ret ok where acc: "acc = (ret, ok)" by (cases acc)
  from Cons.prems have "snd (fold decode_field fs (decode_field f acc))" by simp
  from Cons.IH [OF this]
  have 1: "snd (decode_field f acc)" and 2: "\<forall>k \<in> fst ` set fs. known_field k" by auto
  from 1 f acc have "ok \<and> known_field k" using decode_field_ok by blast
  with 2 f acc show ?case by simp
qed

lemma EncodedVariable_Variable_ok:
  assumes "snd (EncodedVariable_Variable M)"
  shows "len M \<noteq> 0 \<and> len M \<le> 2 \<and> (\<forall>k \<in> set (keys M). known_field k)"
proof -
  from assms have l: "len M \<noteq> 0" "len M \<le> 2"
    by (auto simp: EncodedVariable_Variable_def split: if_splits)
  then obtain kvs where M: "M = Some kvs" by (cases M) (auto simp: len_def)
  from assms l obtain data where d: "Marshal (VMap M) = Some data" "snd (Decode_EncodedVariable data)"
    by (auto simp: EncodedVariable_Variable_def split: if_splits option.splits prod.splits)
  from d(1) M obtain fs where fs: "Marshal_entries kvs = Some fs" "data = JObject (sort_key fst fs)"
    by auto
  from d(2) fs(2) have "snd (fold decode_field (sort_key fst fs) (\<lparr>Foo = [], Num = 0\<rparr>, True))"
    by (simp add: Decode_EncodedVariable_def)
  then have "\<forall>k \<in> fst ` set (sort_key fst fs). known_field k"
    using fold_decode_field_ok by blast
  moreover have "fst ` set fs = set (keys M)"
    using Marshal_entries_keys [OF fs(1)] M by (simp add: keys_def flip: set_map)
  ultimately show ?thesis using l by simp
qed

lemma DeepEqual_struct: "DeepEqual (VEncodedVariable a) y \<longleftrightarrow> y = VEncodedVariable a"
  by (cases y) auto

text \<open>
  Claim C3. For every variable map \<open>M\<close>, \<open>ExactVariables\<close> whose reference has the
  method \<open>Variable\<close> matches \<open>M\<close> if and only if the decoding succeeds and the decoded
  value is deeply equal to the reference, which for a struct is: it is the reference,
  field for field. The decoding succeeds only when \<open>M\<close> is not
  empty, has at most two keys and has no key that is unknown to the target struct; so a
  map with an unknown key is rejected, whatever its other entries are.
\<close>

theorem ExactVariables_decoder:
  "as_VariableDecoder R = Some decoder \<Longrightarrow>
     (ExactVariables_CompareVariables R M \<longleftrightarrow>
        snd (decoder M) \<and> DeepEqual R (fst (decoder M))) \<and>
     (\<forall>got. DeepEqual R got \<longleftrightarrow> got = R) \<and>
     (ExactVariables_CompareVariables R M \<longleftrightarrow> decoder M = (R, True)) \<and>
     (snd (decoder M) \<longrightarrow>
        len M \<noteq> 0 \<and> len M \<le> 2 \<and> (\<forall>k \<in> set (keys M). known_field k)) \<and>
     ((\<exists>k \<in> set (keys M). \<not> known_field k) \<longrightarrow> \<not> ExactVariables_CompareVariables R M)"
proof -
  assume dec: "as_VariableDecoder R = Some decoder"
  then have decoder: "decoder = EncodedVariable_Variable"
    by (cases R) auto
  have 1: "ExactVariables_CompareVariables R M \<longleftrightarrow>
        snd (decoder M) \<and> DeepEqual R (fst (decoder M))"
    using dec by (auto simp: ExactVariables_CompareVariables_def split: prod.splits)
  have 2: "snd (decoder M) \<longrightarrow>
        len M \<noteq> 0 \<and> len M \<le> 2 \<and> (\<forall>k \<in> set (keys M). known_field k)"
    using EncodedVariable_Variable_ok [of M] decoder by blast
  from dec obtain e where "R = VEncodedVariable e" by (cases R) auto
  then have 3: "\<forall>got. DeepEqual R got \<longleftrightarrow> got = R"
    using DeepEqual_struct by blast
  have 4: "ExactVariables_CompareVariables R M \<longleftrightarrow> decoder M = (R, True)"
    using 1 3 by (cases "decoder M") auto
  from 1 2 3 4 show ?thesis by blast
qed

theorem ExactVariables_decoder_witness:
  "as_VariableDecoder (VEncodedVariable \<lparr>Foo = ''str'', Num = 3\<rparr>) = Some EncodedVariable_Variable \<and>
   ExactVariables_CompareVariables (VEncodedVariable \<lparr>Foo = ''str'', Num = 3\<rparr>)
     (Some [(''num'', VFloat64 (Finite 3)), (''foo'', VString ''str'')]) \<and>
   snd (EncodedVariable_Variable (Some [(''num'', VFloat64 (Finite 3)), (''foo'', VString ''str'')])) \<and>
   \<not> known_field ''fail'' \<and>
   \<not> ExactVariables_CompareVariables (VEncodedVariable \<lparr>Foo = ''str'', Num = 0\<rparr>)
     (Some [(''foo'', VString ''str''), (''fail'', VBool True)]) \<and>
   EncodedVariable_Variable (Some [(''foo'', VString ''no''), (''num'', VInt 2)]) =
     (VEncodedVariable \<lparr>Foo = ''no'', Num = 2\<rparr>, True) \<and>
   \<not> ExactVariables_CompareVariables (VEncodedVariable \<lparr>Foo = ''str'', Num = 3\<rparr>)
     (Some [(''foo'', VString ''no''), (''num'', VInt 2)])"
proof -
  have d: "as_VariableDecoder (VEncodedVariable \<lparr>Foo = ''str'', Num = 3\<rparr>) = Some EncodedVariable_Variable"
      "as_VariableDecoder (VEncodedVariable \<lparr>Foo = ''str'', Num = 0\<rparr>) = Some EncodedVariable_Variable"
    by simp_all
  have ok: "EncodedVariable_Variable (Some [(''num'', VFloat64 (Finite 3)), (''foo'', VString ''str'')])
      = (VEncodedVariable \<lparr>Foo = ''str'', Num = 3\<rparr>, True)"
    by code_simp
  have no: "EncodedVariable_Variable (Some [(''foo'', VString ''no''), (''num'', VInt 2)]) =
     (VEncodedVariable \<lparr>Foo = ''no'', Num = 2\<rparr>, True)"
    by code_simp
  have nk: "\<not> known_field ''fail''" by code_simp
  from ExactVariables_decoder
    [OF d(1), of "Some [(''num'', VFloat64 (Finite 3)), (''foo'', VString ''str'')]"] ok
  have 1: "ExactVariables_CompareVariables (VEncodedVariable \<lparr>Foo = ''str'', Num = 3\<rparr>)
     (Some [(''num'', VFloat64 (Finite 3)), (''foo'', VString ''str'')])"
    by simp
  from ExactVariables_decoder
    [OF d(2), of "Some [(''foo'', VString ''str''), (''fail'', VBool True)]"] nk
  have 2: "\<not> ExactVariables_CompareVariables (VEncodedVariable \<lparr>Foo = ''str'', Num = 0\<rparr>)
     (Some [(''foo'', VString ''str''), (''fail'', VBool True)])"
    by (simp add: keys_def)
  from ExactVariables_decoder
    [OF d(1), of "Some [(''foo'', VString ''no''), (''num'', VInt 2)]"] no
  have 3: "\<not> ExactVariables_CompareVariables (VEncodedVariable \<lparr>Foo = ''str'', Num = 3\<rparr>)
     (Some [(''foo'', VString ''no''), (''num'', VInt 2)])"
    by simp
  from d(1) 1 ok nk 2 no 3 show ?thesis by simp
qed

section \<open>Exact matching on the raw map\<close>

lemma DeepEqual_VSlice: "DeepEqual (VSlice xs) y \<Longrightarrow> TypeOf y = T_slice"
  by (cases xs; cases y) (auto split: option.splits)

lemma DeepEqual_VMap: "DeepEqual (VMap m) y \<Longrightarrow> TypeOf y = T_map"
  by (cases m; cases y) (auto split: option.splits)

lemma DeepEqual_TypeOf: "DeepEqual x y \<Longrightarrow> TypeOf x = TypeOf y"
  by (cases x; cases y) (auto dest: DeepEqual_VSlice DeepEqual_VMap)

lemma DeepEqual_entries_iff:
  "DeepEqual_entries kvs kvs' \<longleftrightarrow>
     (\<forall>(k, v) \<in> set kvs. \<exists>v'. map_of kvs' k = Some v' \<and> DeepEqual v v')"
  by (induction kvs) (auto split: option.splits)

lemma DeepEqual_maps:
  assumes "distinct (map fst kvs)" "distinct (map fst kvs')"
  shows "(length kvs = length kvs' \<and> DeepEqual_entries kvs kvs') \<longleftrightarrow>
     (fst ` set kvs = fst ` set kvs' \<and>
      (\<forall>k \<in> fst ` set kvs. \<exists>v v'. map_of kvs k = Some v \<and> map_of kvs' k = Some v' \<and> DeepEqual v v'))"
  (is "?L \<longleftrightarrow> ?R")
proof
  assume L: ?L
  then have all: "\<forall>(k, v) \<in> set kvs. \<exists>v'. map_of kvs' k = Some v' \<and> DeepEqual v v'"
    by (simp add: DeepEqual_entries_iff)
  have sub: "fst ` set kvs \<subseteq> fst ` set kvs'"
  proof
    fix k assume "k \<in> fst ` set kvs"
    then obtain v where "(k, v) \<in> set kvs" by auto
    with all obtain v' where "map_of kvs' k = Some v'" by auto
    then have "map_of kvs' k \<noteq> None" by simp
    then show "k \<in> fst ` set kvs'" by (simp add: map_of_eq_None_iff)
  qed
  have "card (fst ` set kvs) = length kvs" "card (fst ` set kvs') = length kvs'"
    using assms distinct_card [of "map fst kvs"] distinct_card [of "map fst kvs'"] by simp_all
  with L sub have eq: "fst ` set kvs = fst ` set kvs'"
    by (simp add: card_subset_eq)
  have "\<exists>v v'. map_of kvs k = Some v \<and> map_of kvs' k = Some v' \<and> DeepEqual v v'"
    if "k \<in> fst ` set kvs" for k
  proof -
    from that obtain v where kv: "(k, v) \<in> set kvs" by auto
    with assms(1) have "map_of kvs k = Some v" by simp
    moreover from all kv obtain v' where "map_of kvs' k = Some v'" "DeepEqual v v'" by auto
    ultimately show ?thesis by blast
  qed
  with eq show ?R by blast
next
  assume R: ?R
  have "card (fst ` set kvs) = length kvs" "card (fst ` set kvs') = length kvs'"
    using assms distinct_card [of "map fst kvs"] distinct_card [of "map fst kvs'"] by simp_all
  with R have len: "length kvs = length kvs'" by simp
  have "\<exists>v'. map_of kvs' k = Some v' \<and> DeepEqual v v'" if "(k, v) \<in> set kvs" for k v
  proof -
    from that have "k \<in> fst ` set kvs" by force
    with R obtain u v' where "map_of kvs k = Some u" "map_of kvs' k = Some v'" "DeepEqual u v'"
      by blast
    moreover from that assms(1) have "map_of kvs k = Some v" by simp
    ultimately show ?thesis by simp
  qed
  then have "DeepEqual_entries kvs kvs'" by (auto simp: DeepEqual_entries_iff)
  with len show ?L by simp
qed

lemma DeepEqual_scalar: "scalar v \<Longrightarrow> DeepEqual v y \<longleftrightarrow> y = v"
  by (cases v; cases y) (auto simp: float64_eq_def)

lemma DeepEqual_VFloat64: "DeepEqual (VFloat64 a) y \<longleftrightarrow> a \<noteq> NaN \<and> y = VFloat64 a"
  by (cases y) (auto simp: float64_eq_def)

lemma DeepEqual_elems_iff:
  "length xs = length ys \<and> DeepEqual_elems xs ys \<longleftrightarrow> list_all2 DeepEqual xs ys"
proof (induction xs arbitrary: ys)
  case Nil
  then show ?case by auto
next
  case (Cons x xs)
  then show ?case by (cases ys) auto
qed

lemma DeepEqual_slice:
  "DeepEqual (VSlice (Some xs)) y \<longleftrightarrow> (\<exists>ys. y = VSlice (Some ys) \<and> list_all2 DeepEqual xs ys)"
proof (cases y)
  case (VSlice o_ys)
  then show ?thesis using DeepEqual_elems_iff [of xs] by (cases o_ys) auto
qed auto

lemma lookup_None: "lookup m k = None \<longleftrightarrow> k \<notin> set (keys m)"
  by (cases m) (simp_all add: lookup_def keys_def map_of_eq_None_iff)

lemma DeepEqual_VMap_iff:
  assumes wf: "wf_map R" "wf_map M"
  shows "DeepEqual (VMap R) (VMap M) \<longleftrightarrow>
        (R = None \<longleftrightarrow> M = None) \<and> set (keys R) = set (keys M) \<and>
        (\<forall>k \<in> set (keys R). \<exists>v v'. lookup R k = Some v \<and> lookup M k = Some v' \<and> DeepEqual v v')"
proof (cases R)
  case None
  then show ?thesis by (cases M) (auto simp: keys_def)
next
  case R: (Some kvs)
  show ?thesis
  proof (cases M)
    case None
    with R show ?thesis by simp
  next
    case M: (Some kvs')
    from wf R M have "distinct (map fst kvs)" "distinct (map fst kvs')"
      by (simp_all add: wf_map_def keys_def)
    from DeepEqual_maps [OF this] R M show ?thesis
      by (simp add: keys_def lookup_def)
  qed
qed

lemma DeepEqual_flat:
  assumes wf: "wf_map R" "wf_map M"
    and sc: "\<forall>k v. lookup R k = Some v \<longrightarrow> scalar v"
  shows "DeepEqual (VMap R) (VMap M) \<longleftrightarrow>
        (R = None \<longleftrightarrow> M = None) \<and> (\<forall>k. lookup R k = lookup M k)"
proof
  assume "DeepEqual (VMap R) (VMap M)"
  then have nil: "R = None \<longleftrightarrow> M = None" and ks: "set (keys R) = set (keys M)"
    and vs: "\<forall>k \<in> set (keys R). \<exists>v v'. lookup R k = Some v \<and> lookup M k = Some v' \<and> DeepEqual v v'"
    using DeepEqual_VMap_iff [OF wf] by simp_all
  have "lookup R k = lookup M k" for k
  proof (cases "k \<in> set (keys R)")
    case True
    with vs obtain v v' where v: "lookup R k = Some v" "lookup M k = Some v'" "DeepEqual v v'"
      by blast
    with sc have "v' = v" using DeepEqual_scalar by blast
    with v show ?thesis by simp
  next
    case False
    with ks have "lookup R k = None" "lookup M k = None" by (simp_all add: lookup_None)
    then show ?thesis by simp
  qed
  with nil show "(R = None \<longleftrightarrow> M = None) \<and> (\<forall>k. lookup R k = lookup M k)" by blast
next
  assume r: "(R = None \<longleftrightarrow> M = None) \<and> (\<forall>k. lookup R k = lookup M k)"
  then have eq: "lookup R k = lookup M k" for k by blast
  have ks: "set (keys R) = set (keys M)"
  proof (rule set_eqI)
    fix k
    have "k \<in> set (keys R) \<longleftrightarrow> lookup R k \<noteq> None" by (simp add: lookup_None)
    also have "\<dots> \<longleftrightarrow> lookup M k \<noteq> None" by (simp add: eq)
    also have "\<dots> \<longleftrightarrow> k \<in> set (keys M)" by (simp add: lookup_None)
    finally show "k \<in> set (keys R) \<longleftrightarrow> k \<in> set (keys M)" .
  qed
  have "\<exists>v v'. lookup R k = Some v \<and> lookup M k = Some v' \<and> DeepEqual v v'"
    if "k \<in> set (keys R)" for k
  proof -
    from that obtain v where v: "lookup R k = Some v"
      using lookup_None [of R k] by (cases "lookup R k") auto
    with sc have "scalar v" by blast
    then have "DeepEqual v v" by (simp add: DeepEqual_scalar)
    with v eq [of k] show ?thesis by simp
  qed
  with r ks show "DeepEqual (VMap R) (VMap M)"
    using DeepEqual_VMap_iff [OF wf] by blast
qed

text \<open>
  Claim C4. For every reference map \<open>R\<close> (a map has no method \<open>Variable\<close>) and every
  variable map \<open>M\<close>, \<open>ExactVariables(R).CompareVariables(M)\<close> is true if and only if
  \<open>R\<close> and \<open>M\<close> are deeply equal: both nil or both not, the same keys, and deeply equal
  values under each key. When the values of \<open>R\<close> have no parts this is: \<open>M\<close> has the
  same value under every key. Deep equality of two values is equality of type and
  value for nil, booleans, integers, strings, floating point numbers (but NaN) and
  structs, and deep equality element by element for slices. Deeply equal values have the
  same dynamic type, so an int is never deeply equal to a string or to a float64.
\<close>

theorem ExactVariables_raw:
  "wf_map R \<Longrightarrow> wf_map M \<Longrightarrow>
     (ExactVariables_CompareVariables (VMap R) M \<longleftrightarrow> DeepEqual (VMap R) (VMap M)) \<and>
     (DeepEqual (VMap R) (VMap M) \<longleftrightarrow>
        (R = None \<longleftrightarrow> M = None) \<and> set (keys R) = set (keys M) \<and>
        (\<forall>k \<in> set (keys R). \<exists>v v'. lookup R k = Some v \<and> lookup M k = Some v' \<and> DeepEqual v v')) \<and>
     (\<forall>x y. DeepEqual x y \<longrightarrow> TypeOf x = TypeOf y) \<and>
     ((\<forall>k v. lookup R k = Some v \<longrightarrow> scalar v) \<longrightarrow>
        (ExactVariables_CompareVariables (VMap R) M \<longleftrightarrow>
           (R = None \<longleftrightarrow> M = None) \<and> (\<forall>k. lookup R k = lookup M k))) \<and>
     (\<forall>y. DeepEqual VNil y \<longleftrightarrow> y = VNil) \<and>
     (\<forall>a y. DeepEqual (VBool a) y \<longleftrightarrow> y = VBool a) \<and>
     (\<forall>a y. DeepEqual (VInt a) y \<longleftrightarrow> y = VInt a) \<and>
     (\<forall>a y. DeepEqual (VString a) y \<longleftrightarrow> y = VString a) \<and>
     (\<forall>a y. DeepEqual (VFloat64 a) y \<longleftrightarrow> a \<noteq> NaN \<and> y = VFloat64 a) \<and>
     (\<forall>a y. DeepEqual (VEncodedVariable a) y \<longleftrightarrow> y = VEncodedVariable a) \<and>
     (\<forall>y. DeepEqual (VSlice None) y \<longleftrightarrow> y = VSlice None) \<and>
     (\<forall>xs y. DeepEqual (VSlice (Some xs)) y \<longleftrightarrow>
        (\<exists>ys. y = VSlice (Some ys) \<and> list_all2 DeepEqual xs ys))"
proof -
  assume wf: "wf_map R" "wf_map M"
  have 1: "ExactVariables_CompareVariables (VMap R) M \<longleftrightarrow> DeepEqual (VMap R) (VMap M)"
    by (simp add: ExactVariables_CompareVariables_def)
  note 2 = DeepEqual_VMap_iff [OF wf]
  have 3: "\<forall>x y. DeepEqual x y \<longrightarrow> TypeOf x = TypeOf y"
    using DeepEqual_TypeOf by blast
  have 4: "(\<forall>k v. lookup R k = Some v \<longrightarrow> scalar v) \<longrightarrow>
        (ExactVariables_CompareVariables (VMap R) M \<longleftrightarrow>
           (R = None \<longleftrightarrow> M = None) \<and> (\<forall>k. lookup R k = lookup M k))"
    using 1 DeepEqual_flat [OF wf] by blast
  have 5: "\<forall>y. DeepEqual VNil y \<longleftrightarrow> y = VNil" by simp
  have 6: "\<forall>a y. DeepEqual (VBool a) y \<longleftrightarrow> y = VBool a"
    by (auto split: gvalue.splits)
  have 7: "\<forall>a y. DeepEqual (VInt a) y \<longleftrightarrow> y = VInt a"
    by (auto split: gvalue.splits)
  have 8: "\<forall>a y. DeepEqual (VString a) y \<longleftrightarrow> y = VString a"
    by (auto split: gvalue.splits)
  have 9: "\<forall>a y. DeepEqual (VFloat64 a) y \<longleftrightarrow> a \<noteq> NaN \<and> y = VFloat64 a"
    using DeepEqual_VFloat64 by blast
  have 10: "\<forall>a y. DeepEqual (VEncodedVariable a) y \<longleftrightarrow> y = VEncodedVariable a"
    using DeepEqual_struct by blast
  have 11: "\<forall>y. DeepEqual (VSlice None) y \<longleftrightarrow> y = VSlice None" by simp
  have 12: "\<forall>xs y. DeepEqual (VSlice (Some xs)) y \<longleftrightarrow>
        (\<exists>ys. y = VSlice (Some ys) \<and> list_all2 DeepEqual xs ys)"
    using DeepEqual_slice by blast
  show ?thesis
    by (intro conjI) (rule 1 2 3 4 5 6 7 8 9 10 11 12)+
qed

theorem ExactVariables_raw_witness:
  "wf_map (Some [(''foo'', VInt 1), (''test'', VString ''str'')]) \<and>
   wf_map (Some [(''test'', VString ''str''), (''foo'', VInt 1)]) \<and>
   ExactVariables_CompareVariables (VMap (Some [(''foo'', VInt 1), (''test'', VString ''str'')]))
     (Some [(''test'', VString ''str''), (''foo'', VInt 1)]) \<and>
   \<not> DeepEqual (VInt 1) (VString ''1'') \<and>
   \<not> DeepEqual (VInt 1) (VFloat64 (Finite 1)) \<and>
   wf_map (Some [(''foo'', VInt 0)]) \<and> wf_map (Some [(''foo'', VInt 1)]) \<and>
   \<not> ExactVariables_CompareVariables (VMap (Some [(''foo'', VInt 0)])) (Some [(''foo'', VInt 1)]) \<and>
   wf_map (Some [(''foo'', VString ''1'')]) \<and>
   \<not> ExactVariables_CompareVariables (VMap (Some [(''foo'', VString ''1'')]))
     (Some [(''foo'', VInt 1)])"
proof -
  have wf: "wf_map (Some [(''foo'', VInt 1), (''test'', VString ''str'')])"
    "wf_map (Some [(''test'', VString ''str''), (''foo'', VInt 1)])"
    "wf_map (Some [(''foo'', VInt 0)])" "wf_map (Some [(''foo'', VInt 1)])"
    "wf_map (Some [(''foo'', VString ''1'')])"
    by (simp_all add: wf_map_def keys_def)
  note t1 = ExactVariables_raw [OF wf(1) wf(2)]
  from t1 have a: "ExactVariables_CompareVariables
      (VMap (Some [(''foo'', VInt 1), (''test'', VString ''str'')]))
      (Some [(''test'', VString ''str''), (''foo'', VInt 1)])"
    by (simp add: keys_def lookup_def)
  from t1 have b: "\<not> DeepEqual (VInt 1) (VString ''1'')"
    "\<not> DeepEqual (VInt 1) (VFloat64 (Finite 1))"
    by simp_all
  from ExactVariables_raw [OF wf(3) wf(4)]
  have c: "\<not> ExactVariables_CompareVariables (VMap (Some [(''foo'', VInt 0)]))
      (Some [(''foo'', VInt 1)])"
    by (simp add: keys_def lookup_def)
  from ExactVariables_raw [OF wf(5) wf(4)]
  have d: "\<not> ExactVariables_CompareVariables (VMap (Some [(''foo'', VString ''1'')]))
      (Some [(''foo'', VInt 1)])"
    by (simp add: keys_def lookup_def)
  from wf a b c d show ?thesis by blast
qed

section \<open>What the handler sends\<close>

lemma respondError_eq:
  "Marshal ext = Some x \<Longrightarrow>
     respondError w status msg ext = Inr (w @ [(status, error_document msg x)])"
  by (simp add: respondError_def respond_def Encode_Response_def Encode_ResponseError_def
      error_document_def)

lemma respondError_VNil:
  "respondError w status msg VNil = Inr (w @ [(status, error_document msg JNull)])"
  by (simp add: respondError_eq)

lemma respondResponse_eq:
  "Marshal data = Some d \<Longrightarrow>
     respondResponse w status data = Inr (w @ [(status, data_document d)])"
  by (simp add: respondResponse_def respond_def Encode_Response_def data_document_def)

lemma respondResponse_panic:
  "Marshal data = None \<Longrightarrow> respondResponse w status data = Inl FailedToEncodeResponse"
  by (simp add: respondResponse_def respond_def Encode_Response_def)

lemma handleQuery_reject:
  "\<not> CompareVariables m (Variables req) \<Longrightarrow> handleQuery m req w = Inr (False, w)"
  by (simp add: handleQuery_def)

lemma handleQuery_accept:
  "CompareVariables m (Variables req) \<Longrightarrow> Response m = Inr data \<Longrightarrow> Marshal data = Some d \<Longrightarrow>
     handleQuery m req w = Inr (True, w @ [(StatusOK, data_document d)])"
  by (simp add: handleQuery_def respondResponse_eq)

lemma handleQuery_True:
  "handleQuery m req w = Inr (True, w') \<Longrightarrow>
     CompareVariables m (Variables req) \<and>
     (\<exists>data d. Response m = Inr data \<and> Marshal data = Some d \<and>
        w' = w @ [(StatusOK, data_document d)])"
  by (cases "Marshal (projr (Response m))")
    (auto simp: handleQuery_def respondResponse_eq respondResponse_panic
      split: if_splits sum.splits)

lemma handleQuery_False:
  "handleQuery m req w = Inr (False, w') \<Longrightarrow> \<not> CompareVariables m (Variables req) \<and> w' = w"
  by (auto simp: handleQuery_def split: if_splits sum.splits)

lemma range_mockedRequests_none:
  "\<forall>m \<in> set ms. \<not> CompareVariables m (Variables req) \<Longrightarrow>
     range_mockedRequests ms req w = Inr (False, w)"
  by (induction ms) (simp_all add: handleQuery_reject)

lemma range_mockedRequests_first:
  "\<forall>m \<in> set pre. \<not> CompareVariables m (Variables req) \<Longrightarrow>
     CompareVariables A (Variables req) \<Longrightarrow> Response A = Inr data \<Longrightarrow> Marshal data = Some d \<Longrightarrow>
     range_mockedRequests (pre @ A # post) req w = Inr (True, w @ [(StatusOK, data_document d)])"
  by (induction pre) (simp_all add: handleQuery_reject handleQuery_accept)

lemma range_mockedRequests_False:
  "range_mockedRequests ms req w = Inr (False, w') \<Longrightarrow>
     w' = w \<and> (\<forall>m \<in> set ms. \<not> CompareVariables m (Variables req))"
proof (induction ms)
  case Nil
  then show ?case by simp
next
  case (Cons m ms)
  from Cons.prems obtain w1 where 1: "handleQuery m req w = Inr (False, w1)"
    and 2: "range_mockedRequests ms req w1 = Inr (False, w')"
    by (auto split: sum.splits bool.splits prod.splits)
  from handleQuery_False [OF 1] Cons.IH 2 show ?case by auto
qed

lemma range_mockedRequests_True:
  "range_mockedRequests ms req w = Inr (True, w') \<Longrightarrow>
     \<exists>m \<in> set ms. CompareVariables m (Variables req) \<and>
       (\<exists>data d. Response m = Inr data \<and> Marshal data = Some d \<and>
          w' = w @ [(StatusOK, data_document d)])"
proof (induction ms)
  case Nil
  then show ?case by simp
next
  case (Cons m ms)
  from Cons.prems
  consider "handleQuery m req w = Inr (True, w')"
    | w1 where "handleQuery m req w = Inr (False, w1)" "range_mockedRequests ms req w1 = Inr (True, w')"
    by (auto split: sum.splits bool.splits prod.splits)
  then show ?case
  proof cases
    case 1
    from handleQuery_True [OF 1] show ?thesis by auto
  next
    case 2
    from handleQuery_False [OF 2(1)] have "w1 = w" by simp
    with 2(2) Cons.IH show ?thesis by auto
  qed
qed

lemma range_queries_none:
  "\<forall>ident \<in> set ids. Contains (Query req) ident \<longrightarrow>
       (\<forall>m \<in> set (entries qs ident). \<not> CompareVariables m (Variables req)) \<Longrightarrow>
     range_queries ids qs req w scanned =
       Inr (False, w, scanned @ filter (Contains (Query req)) ids)"
  by (induction ids arbitrary: scanned) (simp_all add: range_mockedRequests_none)

lemma range_queries_first:
  "\<forall>ident \<in> set pre. Contains (Query req) ident \<longrightarrow>
       (\<forall>m \<in> set (entries qs ident). \<not> CompareVariables m (Variables req)) \<Longrightarrow>
     Contains (Query req) ident \<Longrightarrow>
     range_mockedRequests (entries qs ident) req w = Inr (True, w') \<Longrightarrow>
     range_queries (pre @ ident # post) qs req w scanned =
       Inr (True, w', scanned @ filter (Contains (Query req)) pre @ [ident])"
  by (induction pre arbitrary: scanned) (simp_all add: range_mockedRequests_none)

lemma range_queries_False:
  "range_queries ids qs req w scanned = Inr (False, w', scanned') \<Longrightarrow>
     w' = w \<and> scanned' = scanned @ filter (Contains (Query req)) ids \<and>
     (\<forall>ident \<in> set ids. Contains (Query req) ident \<longrightarrow>
        (\<forall>m \<in> set (entries qs ident). \<not> CompareVariables m (Variables req)))"
proof (induction ids arbitrary: scanned)
  case Nil
  then show ?case by simp
next
  case (Cons ident ids)
  show ?case
  proof (cases "Contains (Query req) ident")
    case False
    with Cons.prems have "range_queries ids qs req w scanned = Inr (False, w', scanned')" by simp
    from Cons.IH [OF this] False show ?thesis by simp
  next
    case True
    with Cons.prems obtain w1 where 1: "range_mockedRequests (entries qs ident) req w = Inr (False, w1)"
      and 2: "range_queries ids qs req w1 (scanned @ [ident]) = Inr (False, w', scanned')"
      by (auto split: sum.splits bool.splits prod.splits)
    from range_mockedRequests_False [OF 1]
    have w1: "w1 = w" and rej: "\<forall>m \<in> set (entries qs ident). \<not> CompareVariables m (Variables req)"
      by simp_all
    from 2 w1 have "range_queries ids qs req w (scanned @ [ident]) = Inr (False, w', scanned')"
      by simp
    from Cons.IH [OF this] rej True show ?thesis by simp
  qed
qed

lemma range_queries_True:
  "range_queries ids qs req w scanned = Inr (True, w', scanned') \<Longrightarrow>
     (\<exists>pre ident post. ids = pre @ ident # post \<and> Contains (Query req) ident \<and>
        scanned' = scanned @ filter (Contains (Query req)) pre @ [ident] \<and>
        (\<exists>m \<in> set (entries qs ident). CompareVariables m (Variables req) \<and>
           (\<exists>data d. Response m = Inr data \<and> Marshal data = Some d \<and>
              w' = w @ [(StatusOK, data_document d)])))"
proof (induction ids arbitrary: scanned)
  case Nil
  then show ?case by simp
next
  case (Cons ident ids)
  show ?case
  proof (cases "Contains (Query req) ident")
    case False
    with Cons.prems have "range_queries ids qs req w scanned = Inr (True, w', scanned')" by simp
    from Cons.IH [OF this] obtain pre i post where
      "ids = pre @ i # post" "Contains (Query req) i"
      "scanned' = scanned @ filter (Contains (Query req)) pre @ [i]"
      "\<exists>m \<in> set (entries qs i). CompareVariables m (Variables req) \<and>
           (\<exists>data d. Response m = Inr data \<and> Marshal data = Some d \<and>
              w' = w @ [(StatusOK, data_document d)])"
      by blast
    with False show ?thesis
      by (intro exI [of _ "ident # pre"] exI [of _ i] exI [of _ post]) simp
  next
    case True
    with Cons.prems
    consider "range_mockedRequests (entries qs ident) req w = Inr (True, w')" "scanned' = scanned @ [ident]"
      | w1 where "range_mockedRequests (entries qs ident) req w = Inr (False, w1)"
          "range_queries ids qs req w1 (scanned @ [ident]) = Inr (True, w', scanned')"
      by (auto split: sum.splits bool.splits prod.splits)
    then show ?thesis
    proof cases
      case 1
      from range_mockedRequests_True [OF 1(1)] 1(2) True show ?thesis
        by (intro exI [of _ "[]"] exI [of _ ident] exI [of _ ids]) simp
    next
      case 2
      from range_mockedRequests_False [OF 2(1)] have w1: "w1 = w" by simp
      with 2(2) have "range_queries ids qs req w (scanned @ [ident]) = Inr (True, w', scanned')"
        by simp
      from Cons.IH [OF this] obtain pre i post where
        "ids = pre @ i # post" "Contains (Query req) i"
        "scanned' = (scanned @ [ident]) @ filter (Contains (Query req)) pre @ [i]"
        "\<exists>m \<in> set (entries qs i). CompareVariables m (Variables req) \<and>
             (\<exists>data d. Response m = Inr data \<and> Marshal data = Some d \<and>
                w' = w @ [(StatusOK, data_document d)])"
        by blast
      with True show ?thesis
        by (intro exI [of _ "ident # pre"] exI [of _ i] exI [of _ post]) simp
    qed
  qed
qed

lemma handler_scanned_not_query:
  "\<not> HasPrefix (TrimSpace (Query req)) ''query'' \<Longrightarrow>
     handler_scanned ids s (Inr req) w =
       Inr (w @ [(StatusNotFound, error_document not_found JNull)], [])"
  by (simp add: handler_scanned_def respondError_VNil)

lemma handler_scanned_query:
  "HasPrefix (TrimSpace (Query req)) ''query'' \<Longrightarrow>
     handler_scanned ids s (Inr req) w =
       (case range_queries ids (queries s) req w [] of
          Inl p \<Rightarrow> Inl p
        | Inr (True, w', scanned) \<Rightarrow> Inr (w', scanned)
        | Inr (False, w', scanned) \<Rightarrow>
            Inr (w' @ [(StatusNotFound, error_document not_found JNull)], scanned))"
  by (simp add: handler_scanned_def respondError_VNil split: sum.splits bool.splits prod.splits)

lemma handler_scanned_decode_error:
  "handler_scanned ids s (Inl err) w =
     Inr (w @ [(StatusInternalServerError,
                error_document (Errorf_e decode_request_body err) JNull)], [])"
  by (simp add: handler_scanned_def respondError_VNil)

lemma handler_eq:
  "handler_scanned ids s body w = Inr (w', scanned) \<Longrightarrow> handler ids s body w = Inr w'"
  by (simp add: handler_def)

lemma entries_RegisterQuery:
  "entries (queries (RegisterQuery s ident m)) other =
     (if other = ident then entries (queries s) ident @ [m] else entries (queries s) other)"
  by (simp add: RegisterQuery_def entries_def Let_def)

lemma HasPrefix_iff: "HasPrefix s p \<longleftrightarrow> (\<exists>post. s = p @ post)"
proof
  assume "HasPrefix s p"
  then have "s = p @ drop (length p) s"
    by (metis HasPrefix_def append_take_drop_id)
  then show "\<exists>post. s = p @ post" ..
next
  assume "\<exists>post. s = p @ post"
  then show "HasPrefix s p" by (auto simp: HasPrefix_def)
qed

lemma Contains_iff: "Contains s sub \<longleftrightarrow> (\<exists>pre post. s = pre @ sub @ post)"
proof (induction s)
  case Nil
  show ?case by (auto simp: HasPrefix_def)
next
  case (Cons c s)
  show ?case
  proof
    assume "Contains (c # s) sub"
    then consider "HasPrefix (c # s) sub" | "Contains s sub" by auto
    then show "\<exists>pre post. c # s = pre @ sub @ post"
    proof cases
      case 1
      then obtain post where "c # s = sub @ post" by (auto simp: HasPrefix_iff)
      then have "c # s = [] @ sub @ post" by simp
      then show ?thesis by blast
    next
      case 2
      with Cons.IH obtain pre post where "s = pre @ sub @ post" by blast
      then have "c # s = (c # pre) @ sub @ post" by simp
      then show ?thesis by blast
    qed
  next
    assume "\<exists>pre post. c # s = pre @ sub @ post"
    then obtain pre post where eq: "c # s = pre @ sub @ post" by blast
    show "Contains (c # s) sub"
    proof (cases pre)
      case Nil
      with eq have "HasPrefix (c # s) sub" by (auto simp: HasPrefix_iff)
      then show ?thesis by simp
    next
      case (Cons c' pre')
      with eq have "s = pre' @ sub @ post" by simp
      with Cons.IH have "Contains s sub" by blast
      then show ?thesis by simp
    qed
  qed
qed

lemma Contains_empty: "Contains s []"
proof -
  have "s = [] @ [] @ s" by simp
  then show ?thesis unfolding Contains_iff by blast
qed

text \<open>Whatever the request is, a handler that returns has sent one response.\<close>

lemma handler_one_response:
  assumes "handler ids s body w = Inr w'"
  shows "\<exists>status doc. w' = w @ [(status, doc)]"
proof (cases body)
  case (Inl err)
  with assms show ?thesis
    by (auto simp: handler_def handler_scanned_decode_error)
next
  case (Inr req)
  show ?thesis
  proof (cases "HasPrefix (TrimSpace (Query req)) ''query''")
    case False
    with assms Inr show ?thesis
      by (auto simp: handler_def handler_scanned_not_query)
  next
    case True
    show ?thesis
    proof (cases "range_queries ids (queries s) req w []")
      case (Inl p)
      with assms Inr True show ?thesis by (simp add: handler_def handler_scanned_query)
    next
      case r: (Inr r)
      obtain b w1 sc where t: "r = (b, w1, sc)" by (cases r)
      show ?thesis
      proof (cases b)
        case True
        with r t have rq: "range_queries ids (queries s) req w [] = Inr (True, w1, sc)" by simp
        from range_queries_True [OF rq] obtain d where "w1 = w @ [(StatusOK, data_document d)]"
          by blast
        moreover from rq assms Inr \<open>HasPrefix (TrimSpace (Query req)) ''query''\<close>
        have "w' = w1" by (simp add: handler_def handler_scanned_query)
        ultimately show ?thesis by blast
      next
        case False
        with r t have rq: "range_queries ids (queries s) req w [] = Inr (False, w1, sc)" by simp
        from range_queries_False [OF rq] have "w1 = w" by simp
        moreover from rq assms Inr \<open>HasPrefix (TrimSpace (Query req)) ''query''\<close>
        have "w' = w1 @ [(StatusNotFound, error_document not_found JNull)]"
          by (simp add: handler_def handler_scanned_query)
        ultimately show ?thesis by blast
      qed
    qed
  qed
qed

section \<open>Requests that are not queries, and requests that nothing matches\<close>

text \<open>
  Claim C5. A request whose trimmed query does not start with \<open>query\<close> is answered with
  the not-found error document, whatever is registered and in whatever order the map is
  ranged over; the handler goes through no identifier for it.
\<close>

theorem handler_not_a_query:
  "\<not> HasPrefix (TrimSpace (Query req)) ''query'' \<Longrightarrow>
     handler ids s (Inr req) w = Inr (w @ [(StatusNotFound, error_document not_found JNull)]) \<and>
     handler_scanned ids s (Inr req) w =
       Inr (w @ [(StatusNotFound, error_document not_found JNull)], [])"
  by (simp add: handler_def handler_scanned_not_query)

theorem handler_not_a_query_witness:
  "\<not> HasPrefix (TrimSpace ''mutation { ListFoos }'') ''query'' \<and>
   Contains ''mutation { ListFoos }'' ''ListFoos'' \<and>
   CompareVariables mock_A None \<and>
   handler [''ListFoos''] (RegisterQuery New ''ListFoos'' mock_A)
     (Inr \<lparr>Query = ''mutation { ListFoos }'', Variables = None\<rparr>) [] =
     Inr [(404, error_document not_found JNull)]"
proof -
  have 1: "\<not> HasPrefix (TrimSpace ''mutation { ListFoos }'') ''query''" by code_simp
  have 2: "Contains ''mutation { ListFoos }'' ''ListFoos''" by code_simp
  have 3: "CompareVariables mock_A None" by code_simp
  from 1 have "\<not> HasPrefix (TrimSpace (Query \<lparr>Query = ''mutation { ListFoos }'', Variables = None\<rparr>)) ''query''"
    by simp
  from handler_not_a_query [OF this, of "[''ListFoos'']" "RegisterQuery New ''ListFoos'' mock_A" "[]"] 1 2 3
  show ?thesis by (simp add: StatusNotFound_def)
qed

lemma Errorf_e_not_not_found: "Errorf_e decode_request_body err \<noteq> not_found"
  by (cases err) (simp_all add: decode_request_body_def not_found_def)

text \<open>
  Claim C9, as stated, fails in the text of the message: a request that nothing matches
  is answered with the message \<open>goraphql_mock_server: mocked request not found\<close>, which
  has the name of the package in front of \<open>mocked request not found\<close>.
\<close>

theorem handler_not_found_counterexample:
  "\<not> CompareVariables mock_A (Some [(''foo'', VString ''x'')]) \<and>
   handler [''ListFoos''] (RegisterQuery New ''ListFoos'' mock_A)
     (Inr \<lparr>Query = ''query { ListFoos }'', Variables = Some [(''foo'', VString ''x'')]\<rparr>) [] =
     Inr [(404, error_document ''goraphql_mock_server: mocked request not found'' JNull)] \<and>
   handler [''ListFoos''] (RegisterQuery New ''ListFoos'' mock_A)
     (Inr \<lparr>Query = ''query { ListFoos }'', Variables = Some [(''foo'', VString ''x'')]\<rparr>) [] \<noteq>
     Inr [(404, error_document ''mocked request not found'' JNull)] \<and>
   not_found \<noteq> ''mocked request not found''"
  by code_simp

text \<open>
  Claim C9, amended. A decoded request for which no mocked request under an identifier
  that the query contains accepts the variables is answered with status 404 and an error
  document whose message is the fixed text
  \<open>goraphql_mock_server: mocked request not found\<close>. No message of a body that failed to
  decode is this text, so the two answers differ in their messages.
\<close>

theorem handler_not_found:
  assumes "enumerates ids (queries s)"
    and "\<forall>ident \<in> dom (queries s). Contains (Query req) ident \<longrightarrow>
           (\<forall>m \<in> set (entries (queries s) ident). \<not> CompareVariables m (Variables req))"
  shows "handler ids s (Inr req) w =
           Inr (w @ [(StatusNotFound, error_document not_found JNull)]) \<and>
         StatusNotFound = 404 \<and>
         not_found = ''goraphql_mock_server: '' @ ''mocked request not found'' \<and>
         (\<forall>err. Errorf_e decode_request_body err \<noteq> not_found)"
proof -
  have "handler_scanned ids s (Inr req) w =
          Inr (w @ [(StatusNotFound, error_document not_found JNull)],
               if HasPrefix (TrimSpace (Query req)) ''query''
               then filter (Contains (Query req)) ids else [])"
  proof (cases "HasPrefix (TrimSpace (Query req)) ''query''")
    case False
    then show ?thesis by (simp add: handler_scanned_not_query)
  next
    case True
    from assms have "\<forall>ident \<in> set ids. Contains (Query req) ident \<longrightarrow>
           (\<forall>m \<in> set (entries (queries s) ident). \<not> CompareVariables m (Variables req))"
      by (simp add: enumerates_def)
    from range_queries_none [OF this] True show ?thesis
      by (simp add: handler_scanned_query)
  qed
  then have "handler ids s (Inr req) w =
           Inr (w @ [(StatusNotFound, error_document not_found JNull)])"
    by (rule handler_eq)
  moreover have "StatusNotFound = 404" by (simp add: StatusNotFound_def)
  moreover have "not_found = ''goraphql_mock_server: '' @ ''mocked request not found''"
    by (simp add: not_found_def)
  moreover have "\<forall>err. Errorf_e decode_request_body err \<noteq> not_found"
    by (simp add: Errorf_e_not_not_found)
  ultimately show ?thesis by blast
qed

lemma enumerates_one: "enumerates [ident] (queries (RegisterQuery New ident m))"
  by (simp add: enumerates_def RegisterQuery_def New_def Let_def)

lemma dom_one: "dom (queries (RegisterQuery New ident m)) = {ident}"
  by (simp add: RegisterQuery_def New_def Let_def)

lemma entries_New: "entries (queries New) ident = []"
  by (simp add: entries_def New_def)

theorem handler_not_found_witness:
  "enumerates [''ListFoos''] (queries (RegisterQuery New ''ListFoos'' mock_A)) \<and>
   Contains ''query { ListFoos }'' ''ListFoos'' \<and>
   \<not> CompareVariables mock_A (Some [(''foo'', VString ''x'')]) \<and>
   handler [''ListFoos''] (RegisterQuery New ''ListFoos'' mock_A)
     (Inr \<lparr>Query = ''query { ListFoos }'', Variables = Some [(''foo'', VString ''x'')]\<rparr>) [] =
     Inr [(404, error_document ''goraphql_mock_server: mocked request not found'' JNull)]"
proof -
  let ?s = "RegisterQuery New ''ListFoos'' mock_A"
  let ?req = "\<lparr>Query = ''query { ListFoos }'', Variables = Some [(''foo'', VString ''x'')]\<rparr>"
  have 1: "enumerates [''ListFoos''] (queries ?s)" by (rule enumerates_one)
  have 2: "Contains ''query { ListFoos }'' ''ListFoos''" by code_simp
  have 3: "\<not> CompareVariables mock_A (Some [(''foo'', VString ''x'')])" by code_simp
  have 4: "\<forall>ident \<in> dom (queries ?s). Contains (Query ?req) ident \<longrightarrow>
           (\<forall>m \<in> set (entries (queries ?s) ident). \<not> CompareVariables m (Variables ?req))"
    using 3 by (simp add: dom_one entries_RegisterQuery entries_New)
  from handler_not_found [OF 1 4, of "[]"] 1 2 3 show ?thesis
    by (simp add: not_found_def)
qed

section \<open>The order of registration\<close>

text \<open>
  Claim C1, as stated, fails: with \<open>A\<close> registered before \<open>B\<close> under an identifier that
  the query contains and both accepting the variables, a request whose query does not
  start with \<open>query\<close> is answered with not-found, and a request that an entry registered
  before \<open>A\<close> accepts is answered by that entry.
\<close>

theorem first_entry_wins_counterexample:
  "Contains ''mutation { ListFoos }'' ''ListFoos'' \<and>
   CompareVariables mock_A None \<and> CompareVariables mock_B None \<and>
   handler [''ListFoos'']
     (RegisterQuery (RegisterQuery New ''ListFoos'' mock_A) ''ListFoos'' mock_B)
     (Inr \<lparr>Query = ''mutation { ListFoos }'', Variables = None\<rparr>) [] =
     Inr [(404, error_document not_found JNull)] \<and>
   Contains ''query { ListFoos }'' ''ListFoos'' \<and> CompareVariables mock_C None \<and>
   handler [''ListFoos'']
     (RegisterQuery (RegisterQuery (RegisterQuery New ''ListFoos'' mock_C) ''ListFoos'' mock_A)
        ''ListFoos'' mock_B)
     (Inr \<lparr>Query = ''query { ListFoos }'', Variables = None\<rparr>) [] =
     Inr [(200, data_document (JString ''C''))]"
  by code_simp

text \<open>
  Claim C1, amended. Let \<open>A\<close> be registered before \<open>B\<close> under \<open>ident\<close>, the trimmed
  query start with \<open>query\<close>, the query contain \<open>ident\<close>, and \<open>A\<close> and \<open>B\<close> accept the
  variables. If no mocked request registered under \<open>ident\<close> before \<open>A\<close> accepts them, and
  none under another identifier that the query contains does, and the response of \<open>A\<close>
  can be produced and encoded, then the handler sends exactly one response, the one of
  \<open>A\<close>, in whatever order the map is ranged over. Registration appends, so the order of
  the list is the order of registration; and no request gets more than one response.
\<close>

theorem first_entry_wins:
  assumes "enumerates ids (queries s)"
    and "queries s ident = Some (pre @ A # mid @ B # post)"
    and "HasPrefix (TrimSpace (Query req)) ''query''"
    and "Contains (Query req) ident"
    and "CompareVariables A (Variables req)"
    and "CompareVariables B (Variables req)"
    and "\<forall>m \<in> set pre. \<not> CompareVariables m (Variables req)"
    and "\<forall>other \<in> dom (queries s). other \<noteq> ident \<and> Contains (Query req) other \<longrightarrow>
           (\<forall>m \<in> set (entries (queries s) other). \<not> CompareVariables m (Variables req))"
    and "Response A = Inr data"
    and "Marshal data = Some d"
  shows "handler ids s (Inr req) w = Inr (w @ [(StatusOK, data_document d)]) \<and>
         entries (queries (RegisterQuery s ident m)) ident = pre @ A # mid @ B # post @ [m] \<and>
         (\<forall>body w'. handler ids s body w = Inr w' \<longrightarrow>
            (\<exists>status doc. w' = w @ [(status, doc)]))"
proof -
  from assms(1,2) have "ident \<in> set ids" by (auto simp: enumerates_def)
  then obtain before after where ids: "ids = before @ ident # after"
    by (auto dest: split_list)
  with assms(1) have nb: "ident \<notin> set before" by (simp add: enumerates_def)
  have rej: "\<forall>other \<in> set before. Contains (Query req) other \<longrightarrow>
      (\<forall>m \<in> set (entries (queries s) other). \<not> CompareVariables m (Variables req))"
  proof (intro ballI impI)
    fix other m
    assume o: "other \<in> set before" "Contains (Query req) other"
      and m: "m \<in> set (entries (queries s) other)"
    from o(1) ids assms(1) have "other \<in> dom (queries s)" by (auto simp: enumerates_def)
    moreover from o(1) nb have "other \<noteq> ident" by auto
    ultimately show "\<not> CompareVariables m (Variables req)" using assms(8) o(2) m by blast
  qed
  have ent: "entries (queries s) ident = pre @ A # (mid @ B # post)"
    using assms(2) by (simp add: entries_def)
  have "range_mockedRequests (entries (queries s) ident) req w =
      Inr (True, w @ [(StatusOK, data_document d)])"
    unfolding ent using assms(7,5,9,10) by (rule range_mockedRequests_first)
  from range_queries_first [OF rej assms(4) this, of after "[]"] ids assms(3)
  have "handler_scanned ids s (Inr req) w =
      Inr (w @ [(StatusOK, data_document d)], filter (Contains (Query req)) before @ [ident])"
    by (simp add: handler_scanned_query)
  then have "handler ids s (Inr req) w = Inr (w @ [(StatusOK, data_document d)])"
    by (rule handler_eq)
  moreover have "entries (queries (RegisterQuery s ident m)) ident =
      pre @ A # mid @ B # post @ [m]"
    using ent by (simp add: entries_RegisterQuery)
  ultimately show ?thesis using handler_one_response by blast
qed

theorem first_entry_wins_witness:
  "enumerates [''ListFoos'']
     (queries (RegisterQuery (RegisterQuery New ''ListFoos'' mock_A) ''ListFoos'' mock_B)) \<and>
   queries (RegisterQuery (RegisterQuery New ''ListFoos'' mock_A) ''ListFoos'' mock_B) ''ListFoos''
     = Some [mock_A, mock_B] \<and>
   HasPrefix (TrimSpace ''query { ListFoos }'') ''query'' \<and>
   Contains ''query { ListFoos }'' ''ListFoos'' \<and>
   CompareVariables mock_A None \<and> CompareVariables mock_B None \<and>
   Response mock_A = Inr (VString ''A'') \<and> Marshal (VString ''A'') = Some (JString ''A'') \<and>
   handler [''ListFoos'']
     (RegisterQuery (RegisterQuery New ''ListFoos'' mock_A) ''ListFoos'' mock_B)
     (Inr \<lparr>Query = ''query { ListFoos }'', Variables = None\<rparr>) [] =
     Inr [(200, data_document (JString ''A''))]"
proof -
  let ?s = "RegisterQuery (RegisterQuery New ''ListFoos'' mock_A) ''ListFoos'' mock_B"
  let ?req = "\<lparr>Query = ''query { ListFoos }'', Variables = None\<rparr>"
  have 1: "enumerates [''ListFoos''] (queries ?s)"
    by (simp add: enumerates_def RegisterQuery_def New_def Let_def)
  have 2: "queries ?s ''ListFoos'' = Some ([] @ mock_A # [] @ mock_B # [])"
    by (simp add: RegisterQuery_def New_def Let_def entries_def)
  have 3: "HasPrefix (TrimSpace (Query ?req)) ''query''" by code_simp
  have 4: "Contains (Query ?req) ''ListFoos''" by code_simp
  have 5: "CompareVariables mock_A (Variables ?req)" by code_simp
  have 6: "CompareVariables mock_B (Variables ?req)" by code_simp
  have 7: "\<forall>m \<in> set []. \<not> CompareVariables m (Variables ?req)" by simp
  have 8: "\<forall>other \<in> dom (queries ?s). other \<noteq> ''ListFoos'' \<and> Contains (Query ?req) other \<longrightarrow>
           (\<forall>m \<in> set (entries (queries ?s) other). \<not> CompareVariables m (Variables ?req))"
    by (simp add: RegisterQuery_def New_def Let_def)
  have 9: "Response mock_A = Inr (VString ''A'')"
    by (simp add: mock_A_def RawResponse_Response_def)
  have 10: "Marshal (VString ''A'') = Some (JString ''A'')" by simp
  from first_entry_wins [OF 1 2 3 4 5 6 7 8 9 10, of "[]"] 1 2 3 4 5 6 9 10
  show ?thesis by (simp add: StatusOK_def)
qed

section \<open>The empty identifier\<close>

lemma range_mockedRequests_first_accepting:
  "range_mockedRequests ms req w = Inr (True, w') \<Longrightarrow>
     \<exists>pre m post. ms = pre @ m # post \<and>
       (\<forall>x \<in> set pre. \<not> CompareVariables x (Variables req)) \<and>
       CompareVariables m (Variables req) \<and>
       (\<exists>data d. Response m = Inr data \<and> Marshal data = Some d \<and>
          w' = w @ [(StatusOK, data_document d)])"
proof (induction ms)
  case Nil
  then show ?case by simp
next
  case (Cons m ms)
  from Cons.prems
  consider "handleQuery m req w = Inr (True, w')"
    | w1 where "handleQuery m req w = Inr (False, w1)" "range_mockedRequests ms req w1 = Inr (True, w')"
    by (auto split: sum.splits bool.splits prod.splits)
  then show ?case
  proof cases
    case 1
    from handleQuery_True [OF 1] show ?thesis
      by (intro exI [of _ "[]"] exI [of _ m] exI [of _ ms]) simp
  next
    case 2
    from handleQuery_False [OF 2(1)] have rej: "\<not> CompareVariables m (Variables req)" and "w1 = w"
      by simp_all
    with 2(2) have "range_mockedRequests ms req w = Inr (True, w')" by simp
    from Cons.IH [OF this] obtain pre m' post where
      "ms = pre @ m' # post" "\<forall>x \<in> set pre. \<not> CompareVariables x (Variables req)"
      "CompareVariables m' (Variables req)"
      "\<exists>data d. Response m' = Inr data \<and> Marshal data = Some d \<and>
          w' = w @ [(StatusOK, data_document d)]"
      by blast
    with rej show ?thesis
      by (intro exI [of _ "m # pre"] exI [of _ m'] exI [of _ post]) simp
  qed
qed

lemma range_queries_first_accepting:
  "range_queries ids qs req w scanned = Inr (True, w', scanned') \<Longrightarrow>
     \<exists>before ident after. ids = before @ ident # after \<and> Contains (Query req) ident \<and>
       (\<forall>other \<in> set before. Contains (Query req) other \<longrightarrow>
          (\<forall>x \<in> set (entries qs other). \<not> CompareVariables x (Variables req))) \<and>
       (\<exists>pre m post. entries qs ident = pre @ m # post \<and>
          (\<forall>x \<in> set pre. \<not> CompareVariables x (Variables req)) \<and>
          CompareVariables m (Variables req) \<and>
          (\<exists>data d. Response m = Inr data \<and> Marshal data = Some d \<and>
             w' = w @ [(StatusOK, data_document d)]))"
proof (induction ids arbitrary: scanned)
  case Nil
  then show ?case by simp
next
  case (Cons ident ids)
  let ?P = "\<lambda>i. \<exists>pre m post. entries qs i = pre @ m # post \<and>
          (\<forall>x \<in> set pre. \<not> CompareVariables x (Variables req)) \<and>
          CompareVariables m (Variables req) \<and>
          (\<exists>data d. Response m = Inr data \<and> Marshal data = Some d \<and>
             w' = w @ [(StatusOK, data_document d)])"
  let ?R = "\<lambda>before. \<forall>other \<in> set before. Contains (Query req) other \<longrightarrow>
          (\<forall>x \<in> set (entries qs other). \<not> CompareVariables x (Variables req))"
  show ?case
  proof (cases "Contains (Query req) ident")
    case False
    with Cons.prems have "range_queries ids qs req w scanned = Inr (True, w', scanned')" by simp
    from Cons.IH [OF this] obtain before i after where
      "ids = before @ i # after" "Contains (Query req) i" "?R before" "?P i"
      by blast
    with False show ?thesis
      by (intro exI [of _ "ident # before"] exI [of _ i] exI [of _ after]) simp
  next
    case True
    with Cons.prems
    consider "range_mockedRequests (entries qs ident) req w = Inr (True, w')"
      | w1 where "range_mockedRequests (entries qs ident) req w = Inr (False, w1)"
          "range_queries ids qs req w1 (scanned @ [ident]) = Inr (True, w', scanned')"
      by (auto split: sum.splits bool.splits prod.splits)
    then show ?thesis
    proof cases
      case 1
      from range_mockedRequests_first_accepting [OF 1] have "?P ident" .
      with True show ?thesis
        by (intro exI [of _ "[]"] exI [of _ ident] exI [of _ ids]) simp
    next
      case 2
      from range_mockedRequests_False [OF 2(1)] have w1: "w1 = w"
        and rej: "\<forall>x \<in> set (entries qs ident). \<not> CompareVariables x (Variables req)"
        by simp_all
      from 2(2) w1 have "range_queries ids qs req w (scanned @ [ident]) = Inr (True, w', scanned')"
        by simp
      from Cons.IH [OF this] obtain before i after where
        "ids = before @ i # after" "Contains (Query req) i" "?R before" "?P i"
        by blast
      with rej show ?thesis
        by (intro exI [of _ "ident # before"] exI [of _ i] exI [of _ after]) simp
    qed
  qed
qed

text \<open>
  Claim C10, as stated, fails: a mocked request that accepts everything, registered under
  the empty identifier, does not answer a request that a mocked request registered
  before it under the empty identifier accepts, nor one that is answered under another
  identifier which the map happens to yield first.
\<close>

theorem empty_identifier_counterexample:
  "CompareVariables mock_E None \<and>
   HasPrefix (TrimSpace ''query { ListFoos }'') ''query'' \<and>
   handler ['''']
     (RegisterQuery (RegisterQuery New '''' mock_A) '''' mock_E)
     (Inr \<lparr>Query = ''query { ListFoos }'', Variables = None\<rparr>) [] =
     Inr [(200, data_document (JString ''A''))] \<and>
   handler [''ListFoos'', '''']
     (RegisterQuery (RegisterQuery New ''ListFoos'' mock_A) '''' mock_E)
     (Inr \<lparr>Query = ''query { ListFoos }'', Variables = None\<rparr>) [] =
     Inr [(200, data_document (JString ''A''))]"
  by code_simp

text \<open>
  Claim C10, amended. The empty identifier is contained in every query. If a mocked
  request \<open>E\<close> that accepts all variables is registered under it, a request whose trimmed
  query starts with \<open>query\<close> is never answered with not-found: unless a response
  panics, it gets the response of some mocked request with status 200. When \<open>E\<close> is the
  only mocked request of the server, the response is the one of \<open>E\<close>, whatever the query
  and the variables are. In general the response with status 200 is the one of the first
  mocked request, in the order of the range and of registration, that is registered
  under an identifier the query contains and accepts the variables.
\<close>

theorem empty_identifier_matches:
  assumes "HasPrefix (TrimSpace (Query req)) ''query''"
    and "\<forall>v. CompareVariables E v"
    and "Response E = Inr data"
    and "Marshal data = Some d"
  shows "Contains (Query req) '''' \<and>
         (enumerates ids (queries s) \<and> E \<in> set (entries (queries s) '''') \<longrightarrow>
            (\<exists>p. handler ids s (Inr req) w = Inl p) \<or>
            (\<exists>d'. handler ids s (Inr req) w = Inr (w @ [(StatusOK, data_document d')]))) \<and>
         handler [''''] (RegisterQuery New '''' E) (Inr req) w =
           Inr (w @ [(StatusOK, data_document d)]) \<and>
         (\<forall>w'. handler ids s (Inr req) w = Inr w' \<longrightarrow>
            w' = w @ [(StatusNotFound, error_document not_found JNull)] \<or>
            (\<exists>before ident after pre m post data' d'.
               ids = before @ ident # after \<and> Contains (Query req) ident \<and>
               (\<forall>other \<in> set before. Contains (Query req) other \<longrightarrow>
                  (\<forall>x \<in> set (entries (queries s) other).
                     \<not> CompareVariables x (Variables req))) \<and>
               entries (queries s) ident = pre @ m # post \<and>
               (\<forall>x \<in> set pre. \<not> CompareVariables x (Variables req)) \<and>
               CompareVariables m (Variables req) \<and>
               Response m = Inr data' \<and> Marshal data' = Some d' \<and>
               w' = w @ [(StatusOK, data_document d')]))"
proof -
  have 1: "Contains (Query req) ''''" by (rule Contains_empty)
  have 2: "(\<exists>p. handler ids s (Inr req) w = Inl p) \<or>
            (\<exists>d'. handler ids s (Inr req) w = Inr (w @ [(StatusOK, data_document d')]))"
    if en: "enumerates ids (queries s)" and E: "E \<in> set (entries (queries s) '''')"
  proof (cases "range_queries ids (queries s) req w []")
    case (Inl p)
    with assms(1) have "handler ids s (Inr req) w = Inl p"
      by (simp add: handler_def handler_scanned_query)
    then show ?thesis by blast
  next
    case (Inr r)
    obtain b w' scanned where r: "r = (b, w', scanned)" by (cases r)
    show ?thesis
    proof (cases b)
      case True
      with Inr r have rq: "range_queries ids (queries s) req w [] = Inr (True, w', scanned)" by simp
      from range_queries_True [OF this] obtain d' where "w' = w @ [(StatusOK, data_document d')]"
        by blast
      with rq assms(1) have "handler ids s (Inr req) w = Inr (w @ [(StatusOK, data_document d')])"
        by (simp add: handler_def handler_scanned_query)
      then show ?thesis by blast
    next
      case False
      with Inr r have "range_queries ids (queries s) req w [] = Inr (False, w', scanned)" by simp
      from range_queries_False [OF this]
      have rej: "\<forall>ident \<in> set ids. Contains (Query req) ident \<longrightarrow>
        (\<forall>m \<in> set (entries (queries s) ident). \<not> CompareVariables m (Variables req))"
        by simp
      from E have "queries s '''' \<noteq> None"
        by (cases "queries s ''''") (simp_all add: entries_def)
      with en have "'''' \<in> set ids" by (auto simp: enumerates_def)
      with rej 1 E have "\<not> CompareVariables E (Variables req)" by blast
      with assms(2) show ?thesis by simp
    qed
  qed
  have ent: "entries (queries (RegisterQuery New '''' E)) '''' = [] @ E # []"
    by (simp add: entries_RegisterQuery entries_New)
  have "range_mockedRequests (entries (queries (RegisterQuery New '''' E)) '''') req w =
      Inr (True, w @ [(StatusOK, data_document d)])"
    unfolding ent using assms(2,3,4) by (intro range_mockedRequests_first) simp_all
  from range_queries_first [of "[]", OF _ 1 this, of "[]" "[]"] assms(1)
  have "handler_scanned [''''] (RegisterQuery New '''' E) (Inr req) w =
      Inr (w @ [(StatusOK, data_document d)], [''''])"
    by (simp add: handler_scanned_query)
  then have 3: "handler [''''] (RegisterQuery New '''' E) (Inr req) w =
           Inr (w @ [(StatusOK, data_document d)])"
    by (rule handler_eq)
  have 4: "w' = w @ [(StatusNotFound, error_document not_found JNull)] \<or>
            (\<exists>before ident after pre m post data' d'.
               ids = before @ ident # after \<and> Contains (Query req) ident \<and>
               (\<forall>other \<in> set before. Contains (Query req) other \<longrightarrow>
                  (\<forall>x \<in> set (entries (queries s) other).
                     \<not> CompareVariables x (Variables req))) \<and>
               entries (queries s) ident = pre @ m # post \<and>
               (\<forall>x \<in> set pre. \<not> CompareVariables x (Variables req)) \<and>
               CompareVariables m (Variables req) \<and>
               Response m = Inr data' \<and> Marshal data' = Some d' \<and>
               w' = w @ [(StatusOK, data_document d')])"
    if h: "handler ids s (Inr req) w = Inr w'" for w'
  proof (cases "range_queries ids (queries s) req w []")
    case (Inl p)
    with assms(1) h show ?thesis by (simp add: handler_def handler_scanned_query)
  next
    case (Inr r)
    obtain b w1 sc where r: "r = (b, w1, sc)" by (cases r)
    show ?thesis
    proof (cases b)
      case False
      with Inr r have rq: "range_queries ids (queries s) req w [] = Inr (False, w1, sc)" by simp
      from range_queries_False [OF rq] have "w1 = w" by simp
      with rq assms(1) h show ?thesis by (simp add: handler_def handler_scanned_query)
    next
      case True
      with Inr r have rq: "range_queries ids (queries s) req w [] = Inr (True, w1, sc)" by simp
      with assms(1) h have "w' = w1" by (simp add: handler_def handler_scanned_query)
      with range_queries_first_accepting [OF rq] show ?thesis by blast
    qed
  qed
  from 1 2 3 4 show ?thesis by blast
qed

theorem empty_identifier_matches_witness:
  "HasPrefix (TrimSpace ''query { ListFoos }'') ''query'' \<and>
   CompareVariables mock_E (Some [(''foo'', VString ''x'')]) \<and>
   Response mock_E = Inr (VString ''E'') \<and> Marshal (VString ''E'') = Some (JString ''E'') \<and>
   handler [''''] (RegisterQuery New '''' mock_E)
     (Inr \<lparr>Query = ''query { ListFoos }'', Variables = Some [(''foo'', VString ''x'')]\<rparr>) [] =
     Inr [(200, data_document (JString ''E''))]"
proof -
  let ?req = "\<lparr>Query = ''query { ListFoos }'', Variables = Some [(''foo'', VString ''x'')]\<rparr>"
  have 1: "HasPrefix (TrimSpace (Query ?req)) ''query''" by code_simp
  have 2: "\<forall>v. CompareVariables mock_E v"
    by (simp add: mock_E_def AnyVariables_CompareVariables_def)
  have 3: "Response mock_E = Inr (VString ''E'')"
    by (simp add: mock_E_def RawResponse_Response_def)
  have 4: "Marshal (VString ''E'') = Some (JString ''E'')" by simp
  from empty_identifier_matches [OF 1 2 3 4, where w = "[]"]
  have "handler [''''] (RegisterQuery New '''' mock_E) (Inr ?req) [] =
      Inr ([] @ [(StatusOK, data_document (JString ''E''))])"
    by blast
  with 1 2 3 4 show ?thesis by (simp add: StatusOK_def)
qed

section \<open>The identifiers the handler goes through\<close>

text \<open>
  Claim C8, as stated, fails: the identifier is looked for in the query as it was
  received, not in the trimmed query. An identifier that ends with a space is found in a
  query that ends with that space, and its mocked requests are gone through, though the
  trimmed query does not contain it.
\<close>

theorem scanned_identifiers_counterexample:
  "HasPrefix (TrimSpace ''query ListFoos '') ''query'' \<and>
   \<not> Contains (TrimSpace ''query ListFoos '') ''ListFoos '' \<and>
   handler_scanned [''ListFoos ''] (RegisterQuery New ''ListFoos '' mock_A)
     (Inr \<lparr>Query = ''query ListFoos '', Variables = None\<rparr>) [] =
     Inr ([(200, data_document (JString ''A''))], [''ListFoos ''])"
  by code_simp

text \<open>
  Claim C8, amended. For a request whose trimmed query starts with \<open>query\<close>, the
  identifiers whose mocked requests the handler goes through are registered identifiers
  contained in the query as received. They are, in the order of the range, the
  identifiers the query contains up to the one that answers, and all of them when the
  answer is not-found. Containment is that of byte strings: the query is some text, the
  identifier, some text; letters of the other case or patterns never match.
\<close>

theorem scanned_identifiers:
  assumes "HasPrefix (TrimSpace (Query req)) ''query''"
    and "handler_scanned ids s (Inr req) w = Inr (w', scanned)"
  shows "(\<forall>ident \<in> set scanned. ident \<in> set ids \<and> Contains (Query req) ident) \<and>
         (\<exists>rest. filter (Contains (Query req)) ids = scanned @ rest \<and>
            (w' = w @ [(StatusNotFound, error_document not_found JNull)] \<longrightarrow> rest = [])) \<and>
         (\<forall>sub. Contains (Query req) sub \<longleftrightarrow> (\<exists>pre post. Query req = pre @ sub @ post))"
proof -
  have pre: "\<exists>rest. filter (Contains (Query req)) ids = scanned @ rest \<and>
            (w' = w @ [(StatusNotFound, error_document not_found JNull)] \<longrightarrow> rest = [])"
  proof (cases "range_queries ids (queries s) req w []")
    case (Inl p)
    with assms show ?thesis by (simp add: handler_scanned_query)
  next
    case (Inr r)
    obtain b w1 sc where r: "r = (b, w1, sc)" by (cases r)
    show ?thesis
    proof (cases b)
      case False
      with Inr r have rq: "range_queries ids (queries s) req w [] = Inr (False, w1, sc)" by simp
      from range_queries_False [OF rq] have "sc = filter (Contains (Query req)) ids" by simp
      moreover from rq assms have "scanned = sc" by (simp add: handler_scanned_query)
      ultimately show ?thesis by simp
    next
      case True
      with Inr r have rq: "range_queries ids (queries s) req w [] = Inr (True, w1, sc)" by simp
      from range_queries_True [OF rq] obtain before ident after d where
        ids: "ids = before @ ident # after" and c: "Contains (Query req) ident"
        and sc: "sc = [] @ filter (Contains (Query req)) before @ [ident]"
        and w1: "w1 = w @ [(StatusOK, data_document d)]"
        by blast
      from rq assms have eq: "scanned = sc" "w' = w1" by (simp_all add: handler_scanned_query)
      from ids c sc eq have "filter (Contains (Query req)) ids =
          scanned @ filter (Contains (Query req)) after"
        by simp
      moreover from eq w1 have "w' \<noteq> w @ [(StatusNotFound, error_document not_found JNull)]"
        by (simp add: StatusOK_def StatusNotFound_def)
      ultimately show ?thesis by blast
    qed
  qed
  then obtain rest where "filter (Contains (Query req)) ids = scanned @ rest" by blast
  then have "set scanned \<subseteq> set (filter (Contains (Query req)) ids)" by simp
  then have "\<forall>ident \<in> set scanned. ident \<in> set ids \<and> Contains (Query req) ident" by auto
  with pre show ?thesis by (simp add: Contains_iff)
qed

theorem scanned_identifiers_witness:
  "HasPrefix (TrimSpace ''query { ListFoos }'') ''query'' \<and>
   handler_scanned [''Bar'', ''ListFoos'', ''Foo'']
     (RegisterQuery (RegisterQuery (RegisterQuery New ''ListFoos'' mock_A) ''Bar'' mock_B)
        ''Foo'' mock_C)
     (Inr \<lparr>Query = ''query { ListFoos }'', Variables = Some [(''foo'', VString ''x'')]\<rparr>) [] =
     Inr ([(404, error_document not_found JNull)], [''ListFoos'', ''Foo'']) \<and>
   filter (Contains ''query { ListFoos }'') [''Bar'', ''ListFoos'', ''Foo''] = [''ListFoos'', ''Foo''] \<and>
   \<not> Contains ''query { ListFoos }'' ''listfoos''"
proof -
  let ?s = "RegisterQuery (RegisterQuery (RegisterQuery New ''ListFoos'' mock_A) ''Bar'' mock_B)
        ''Foo'' mock_C"
  let ?req = "\<lparr>Query = ''query { ListFoos }'', Variables = Some [(''foo'', VString ''x'')]\<rparr>"
  have 1: "HasPrefix (TrimSpace (Query ?req)) ''query''" by code_simp
  have 2: "handler_scanned [''Bar'', ''ListFoos'', ''Foo''] ?s (Inr ?req) [] =
     Inr ([(404, error_document not_found JNull)], [''ListFoos'', ''Foo''])"
    by code_simp
  have 3: "\<not> Contains ''query { ListFoos }'' ''listfoos''" by code_simp
  have w: "[(404, error_document not_found JNull)] =
      [] @ [(StatusNotFound, error_document not_found JNull)]"
    by (simp add: StatusNotFound_def)
  from scanned_identifiers [OF 1 2, THEN conjunct2, THEN conjunct1] w
  obtain rest where "filter (Contains (Query ?req)) [''Bar'', ''ListFoos'', ''Foo''] =
      [''ListFoos'', ''Foo''] @ rest" and "rest = []"
    by blast
  then have 4: "filter (Contains ''query { ListFoos }'') [''Bar'', ''ListFoos'', ''Foo''] =
      [''ListFoos'', ''Foo'']"
    by (simp del: filter.simps Contains.simps)
  have 5: "HasPrefix (TrimSpace ''query { ListFoos }'') ''query''" using 1 by simp
  from 5 2 4 3 show ?thesis by blast
qed

section \<open>The documents of the two kinds of response\<close>

text \<open>
  Claim C6, as stated, fails: the document of an error response has the field \<open>data\<close>,
  holding \<open>null\<close>; the tag of \<open>Data\<close> has no \<open>omitempty\<close>.
\<close>

theorem error_response_counterexample:
  "respondError [] StatusNotFound not_found VNil =
     Inr [(404, JObject
        [(''data'', JNull),
         (''errors'', JArray
            [JObject
               [(''message'', JString ''goraphql_mock_server: mocked request not found''),
                (''path'', JNull),
                (''extensions'', JNull)]])])]"
  by code_simp

text \<open>
  Claim C6, amended. A success response is the object with the one field \<open>data\<close>,
  holding the payload; the field \<open>errors\<close> is left out. An error response is the object
  with the field \<open>data\<close> holding \<open>null\<close> and the field \<open>errors\<close> holding an array of one
  entry with the fields \<open>message\<close>, \<open>path\<close> (\<open>null\<close>) and \<open>extensions\<close> (what was
  given, \<open>null\<close> for nil).
\<close>

theorem response_documents:
  "(Marshal data = Some d \<longrightarrow>
      respondResponse w status data = Inr (w @ [(status, JObject [(''data'', d)])])) \<and>
   (Marshal ext = Some x \<longrightarrow>
      respondError w status msg ext =
        Inr (w @ [(status, JObject
          [(''data'', JNull),
           (''errors'', JArray
              [JObject [(''message'', JString msg), (''path'', JNull), (''extensions'', x)]])])]))"
  using respondResponse_eq [of data d w status] respondError_eq [of ext x w status msg]
  by (simp add: data_document_def error_document_def)

theorem response_documents_witness:
  "Marshal (VMap (Some [(''ListFoos'', VMap (Some [(''foo'', VFloat64 (Finite 789))]))])) =
     Some (JObject [(''ListFoos'', JObject [(''foo'', JNumber 789)])]) \<and>
   respondResponse [] 200 (VMap (Some [(''ListFoos'', VMap (Some [(''foo'', VFloat64 (Finite 789))]))])) =
     Inr [(200, JObject [(''data'', JObject [(''ListFoos'', JObject [(''foo'', JNumber 789)])])])] \<and>
   Marshal VNil = Some JNull \<and>
   respondError [] 404 ''not found'' VNil =
     Inr [(404, JObject
        [(''data'', JNull),
         (''errors'', JArray
            [JObject [(''message'', JString ''not found''), (''path'', JNull), (''extensions'', JNull)]])])]"
proof -
  let ?data = "VMap (Some [(''ListFoos'', VMap (Some [(''foo'', VFloat64 (Finite 789))]))])"
  have 1: "Marshal ?data = Some (JObject [(''ListFoos'', JObject [(''foo'', JNumber 789)])])"
    by simp
  have 2: "Marshal VNil = Some JNull" by simp
  from response_documents
    [where data = ?data and d = "JObject [(''ListFoos'', JObject [(''foo'', JNumber 789)])]"
       and w = "[]" and status = 200]
    1
  have 3: "respondResponse [] 200 ?data =
     Inr [(200, JObject [(''data'', JObject [(''ListFoos'', JObject [(''foo'', JNumber 789)])])])]"
    by simp
  from response_documents
    [where ext = VNil and x = JNull and w = "[]" and status = 404 and msg = "''not found''"] 2
  have 4: "respondError [] 404 ''not found'' VNil =
     Inr [(404, JObject
        [(''data'', JNull),
         (''errors'', JArray
            [JObject [(''message'', JString ''not found''), (''path'', JNull), (''extensions'', JNull)]])])]"
    by simp
  from 1 3 2 4 show ?thesis by blast
qed

section \<open>A body that fails to decode\<close>

text \<open>
  Claim C7. A request whose body fails to decode is answered with status 500 and an
  error document, and the handler goes through no identifier. The message is meant to
  carry the message of the decoding error; the format has the verb \<open>%e\<close> where \<open>%v\<close> or
  \<open>%w\<close> would print it, and for an empty body (\<open>io.EOF\<close>) the message ends with
  \<^verbatim>\<open>&{%!e(string=EOF)}\<close> and not with \<open>EOF\<close>.
\<close>

theorem decode_error_message:
  "handler_scanned ids s (Inl err) w =
     Inr (w @ [(500, error_document (Errorf_e decode_request_body err) JNull)], []) \<and>
   Errorf_e decode_request_body io_EOF =
     ''goraphql_mock_server: decode request body: &{%!e(string=EOF)}'' \<and>
   Errorf_e decode_request_body io_EOF \<noteq> decode_request_body @ Error io_EOF"
  by (simp add: handler_scanned_decode_error StatusInternalServerError_def
      decode_request_body_def io_EOF_def)

end
